theory Spec2Isabelle
  imports Complex_Main "HOL-Library.AList"
begin

section \<open>JavaScript values and the conversions the clients use\<close>

text \<open>
  The values that travel in event payloads and command parameters. Numbers are the
  integers and NaN: every number the two clients build themselves comes out of
  \<^verbatim>\<open>parseInt\<close> or is a loop counter. (The rounding of integers beyond 2^53 to a
  double is not part of this model.)
\<close>

datatype jsval = JUndefined | JNull | JBool bool | JInt int | JNaN | JStr string

text \<open>Decimal digits of a natural number, as \<^verbatim>\<open>Number.prototype.toString\<close> prints them.\<close>

definition digit_char :: "nat \<Rightarrow> char" where
  "digit_char d = char_of (48 + d)"

fun nat_digits :: "nat \<Rightarrow> string" where
  "nat_digits n = (if n < 10 then [digit_char n] else nat_digits (n div 10) @ [digit_char (n mod 10)])"

declare nat_digits.simps [simp del]

definition int_to_string :: "int \<Rightarrow> string" where
  "int_to_string i = (if i < 0 then CHR ''-'' # nat_digits (nat (- i)) else nat_digits (nat i))"

text \<open>\<^verbatim>\<open>ToString\<close>, which a template literal \<^verbatim>\<open>`${x}`\<close> applies to \<^verbatim>\<open>x\<close>.\<close>

fun to_string :: "jsval \<Rightarrow> string" where
  "to_string JUndefined = ''undefined''"
| "to_string JNull = ''null''"
| "to_string (JBool b) = (if b then ''true'' else ''false'')"
| "to_string (JInt i) = int_to_string i"
| "to_string JNaN = ''NaN''"
| "to_string (JStr s) = s"

text \<open>
  \<^verbatim>\<open>parseInt(s)\<close> without a radix: leading white space is dropped, one sign is read, a
  \<^verbatim>\<open>0x\<close>/\<^verbatim>\<open>0X\<close> prefix switches to base 16, the longest prefix of digits is taken,
  and no digit at all gives NaN. (White space is the ASCII white space; a string is a
  list of bytes here.)
\<close>

definition is_space :: "char \<Rightarrow> bool" where
  "is_space c = (c \<in> set [CHR 0x09, CHR 0x0A, CHR 0x0B, CHR 0x0C, CHR 0x0D, CHR '' ''])"

definition digit_val :: "nat \<Rightarrow> char \<Rightarrow> nat option" where
  "digit_val radix c =
     (let n = of_char c :: nat;
          v = (if 48 \<le> n \<and> n \<le> 57 then Some (n - 48)
               else if 97 \<le> n \<and> n \<le> 122 then Some (n - 87)
               else if 65 \<le> n \<and> n \<le> 90 then Some (n - 55)
               else None)
      in case v of None \<Rightarrow> None | Some d \<Rightarrow> (if d < radix then Some d else None))"

fun read_digits :: "nat \<Rightarrow> string \<Rightarrow> nat option \<Rightarrow> nat option" where
  "read_digits radix [] acc = acc"
| "read_digits radix (c # cs) acc =
     (case digit_val radix c of
        None \<Rightarrow> acc
      | Some d \<Rightarrow> read_digits radix cs (Some ((case acc of None \<Rightarrow> 0 | Some a \<Rightarrow> a) * radix + d)))"

definition parseInt :: "string \<Rightarrow> jsval" where
  "parseInt s =
     (let s1 = dropWhile is_space s;
          neg = (case s1 of c # _ \<Rightarrow> c = CHR ''-'' | [] \<Rightarrow> False);
          s2 = (case s1 of c # cs \<Rightarrow> (if c = CHR ''+'' \<or> c = CHR ''-'' then cs else s1) | [] \<Rightarrow> s1);
          hex = (take 2 s2 = ''0x'' \<or> take 2 s2 = ''0X'');
          s3 = (if hex then drop 2 s2 else s2);
          radix = (if hex then 16 else 10)
      in case read_digits radix s3 None of
           None \<Rightarrow> JNaN
         | Some m \<Rightarrow> JInt (if neg then - int m else int m))"

section \<open>Commands and the document\<close>

text \<open>
  \<^verbatim>\<open>sendCommand(deviceId, command, params)\<close> posts \<^verbatim>\<open>{command, params}\<close> to
  \<^verbatim>\<open>/api/command/<deviceId>\<close>. A request records the three arguments; the
  parameter object is the list of its properties in the order they are written.
\<close>

record request =
  req_device :: string
  req_command :: string
  req_params :: "(string \<times> jsval) list"

definition sendCommand :: "string \<Rightarrow> string \<Rightarrow> (string \<times> jsval) list \<Rightarrow> request" where
  "sendCommand deviceId command params =
     \<lparr>req_device = deviceId, req_command = command, req_params = params\<rparr>"

text \<open>
  An element of the page as the clients read and write it, and the document as
  \<^verbatim>\<open>document.getElementById\<close> sees it: a partial map from element ids to elements.
\<close>

record element =
  el_value :: string
  el_checked :: bool
  el_text :: string

type_synonym document = "string \<rightharpoonup> element"

datatype error = TypeError | SyntaxError

subsection \<open>Selectors built from a device id\<close>

text \<open>
  Both clients build selector strings by writing the device id into a template and hand
  them to \<^verbatim>\<open>querySelector\<close> or \<^verbatim>\<open>querySelectorAll\<close>, which parse the string
  as CSS before they match anything. The part of that parsing that concerns the selectors
  of the clients is modelled; on every other string the browser's engine is a parameter
  (called \<open>other\<close> below), so that nothing is assumed about it.

  A name of CSS consists of letters, digits, \<^verbatim>\<open>-\<close>, \<^verbatim>\<open>_\<close> and code points
  from U+0080 on (here: bytes from 128 on), and an identifier begins with a letter,
  \<^verbatim>\<open>_\<close> or such a code point.
\<close>

definition css_name_char :: "char \<Rightarrow> bool" where
  "css_name_char c =
     (let n = of_char c :: nat
      in (48 \<le> n \<and> n \<le> 57) \<or> (65 \<le> n \<and> n \<le> 90) \<or> (97 \<le> n \<and> n \<le> 122)
         \<or> n = 45 \<or> n = 95 \<or> 128 \<le> n)"

definition css_name_start :: "char \<Rightarrow> bool" where
  "css_name_start c =
     (let n = of_char c :: nat
      in (65 \<le> n \<and> n \<le> 90) \<or> (97 \<le> n \<and> n \<le> 122) \<or> n = 95 \<or> 128 \<le> n)"

text \<open>
  A selector text of the shape \<^verbatim>\<open>#name, #name, ...\<close>. After \<^verbatim>\<open>#\<close> the
  tokenizer takes the longest run of name characters. Where the text ends there, or goes
  on with \<^verbatim>\<open>, \<close> and another such selector, the text is a list of id selectors.
  Where the run is followed by \<^verbatim>\<open>/\<close> that does not open a comment
  \<^verbatim>\<open>/*\<close>, the slash is a delimiter token that no selector contains, and the whole
  text is not a selector. Anything else (an escape, a class, a pseudo-class, a combinator,
  ...) is left to the parameter.
\<close>

datatype id_selectors = Ids "string list" | Invalid | Unparsed

function parse_id_list :: "string \<Rightarrow> id_selectors" where
  "parse_id_list [] = Unparsed"
| "parse_id_list (c # t) =
     (if c \<noteq> CHR ''#'' \<or> takeWhile css_name_char t = [] \<or> \<not> css_name_start (hd t) then Unparsed
      else if dropWhile css_name_char t = [] then Ids [takeWhile css_name_char t]
      else if take 2 (dropWhile css_name_char t) = '', '' then
        (case parse_id_list (drop 2 (dropWhile css_name_char t)) of
           Ids ns \<Rightarrow> Ids (takeWhile css_name_char t # ns)
         | r \<Rightarrow> r)
      else if hd (dropWhile css_name_char t) = CHR ''/''
              \<and> take 2 (dropWhile css_name_char t) \<noteq> ''/*'' then Invalid
      else Unparsed)"
  by pat_completeness auto
termination
proof (relation "measure length")
  show "wf (measure length)" by simp
next
  fix c :: char and t :: string
  have "length (drop 2 (dropWhile css_name_char t)) \<le> length t"
    using length_dropWhile_le [of css_name_char t] by simp
  then show "(drop 2 (dropWhile css_name_char t), c # t) \<in> measure length"
    by simp
qed

declare parse_id_list.simps [simp del]

text \<open>
  A device id written between double quotes, as in
  \<^verbatim>\<open>[data-device-id="<deviceId>"]\<close>: the string token ends at the first double quote,
  a backslash starts an escape, a line break makes the token a bad string and a NUL is
  replaced before the text is read. An id with none of these is the value of the string
  token, and the attribute selector matches the elements whose attribute equals the id.
\<close>

definition css_string_plain :: "string \<Rightarrow> bool" where
  "css_string_plain s =
     list_all (\<lambda>c. c \<notin> set [CHR 0x22, CHR 0x5C, CHR 0x0A, CHR 0x0D, CHR 0x0C, CHR 0x00]) s"

definition attribute_selector :: "string \<Rightarrow> string \<Rightarrow> string" where
  "attribute_selector cls deviceId =
     ''.'' @ cls @ ''[data-device-id='' @ [CHR 0x22] @ deviceId @ [CHR 0x22] @ '']''"

text \<open>
  \<^verbatim>\<open>document.querySelector(`.<cls>[data-device-id="${deviceId}"]`)\<close> on a page whose
  panels of class \<open>cls\<close> carry the ids \<open>panels\<close>, in document order. The result is
  the id carried by the panel found, \<open>None\<close> for \<^verbatim>\<open>null\<close>, or the error thrown.
\<close>

definition query_panel ::
  "(string \<Rightarrow> error + string option) \<Rightarrow> string \<Rightarrow> string list \<Rightarrow> string \<Rightarrow> error + string option" where
  "query_panel other cls panels deviceId =
     (if css_string_plain deviceId
      then Inr (if deviceId \<in> set panels then Some deviceId else None)
      else other (attribute_selector cls deviceId))"

text \<open>
  \<^verbatim>\<open>document.querySelectorAll(text)\<close> for a text of id selectors: the ids of the
  elements that match, listed in the order of the selectors, which is the document order
  of the elements that \<^verbatim>\<open>createModulePanel\<close> writes. (Ids are taken to be unique on
  the page, as \<^verbatim>\<open>getElementById\<close> takes them.)
\<close>

definition querySelectorAll_ids ::
  "(string \<Rightarrow> error + string list) \<Rightarrow> document \<Rightarrow> string \<Rightarrow> error + string list" where
  "querySelectorAll_ids other doc sel =
     (case parse_id_list sel of
        Ids ns \<Rightarrow> Inr (filter (\<lambda>i. doc i \<noteq> None) (remdups ns))
      | Invalid \<Rightarrow> Inl SyntaxError
      | Unparsed \<Rightarrow> other sel)"

subsection \<open>Pulse-shaping client: \<^verbatim>\<open>setThreshold\<close>\<close>

text \<open>
  \<^verbatim>\<open>
  function setThreshold(deviceId, channel) {
      const input = channel === 17
          ? document.getElementById(`thresh-common-${deviceId}`)
          : document.getElementById(`thresh-${deviceId}-${channel}`);
      sendCommand(deviceId, 'set_threshold', { channel: channel, value: parseInt(input.value) });
  }
  \<close>
  Reading \<^verbatim>\<open>.value\<close> of \<^verbatim>\<open>null\<close> throws.
\<close>

definition thresh_common_id :: "string \<Rightarrow> string" where
  "thresh_common_id deviceId = ''thresh-common-'' @ deviceId"

definition thresh_id :: "string \<Rightarrow> jsval \<Rightarrow> string" where
  "thresh_id deviceId channel = ''thresh-'' @ deviceId @ ''-'' @ to_string channel"

definition setThreshold :: "document \<Rightarrow> string \<Rightarrow> int \<Rightarrow> error + request" where
  "setThreshold doc deviceId channel =
     (let input = (if channel = 17 then doc (thresh_common_id deviceId)
                   else doc (thresh_id deviceId (JInt channel)))
      in case input of
           None \<Rightarrow> Inl TypeError
         | Some e \<Rightarrow> Inr (sendCommand deviceId ''set_threshold''
                            [(''channel'', JInt channel), (''value'', parseInt (el_value e))]))"

subsection \<open>Pulse-shaping client: \<^verbatim>\<open>setAutomaticPZ\<close>\<close>

text \<open>
  \<^verbatim>\<open>createAutoPZSection\<close> gives the select \<^verbatim>\<open>auto-pz-<deviceId>\<close> the option
  \<^verbatim>\<open>value="0"\<close> (All) followed by one option \<^verbatim>\<open>value="${ch}"\<close> for
  \<^verbatim>\<open>ch = 1, ..., 16\<close>.
  \<^verbatim>\<open>
  function setAutomaticPZ(deviceId) {
      const select = document.getElementById(`auto-pz-${deviceId}`);
      const channel = parseInt(select.value);
      sendCommand(deviceId, 'set_automatic_pz', { channel: channel === 0 ? null : channel });
  }
  \<close>
\<close>

definition auto_pz_options :: "string list" where
  "auto_pz_options = ''0'' # map (\<lambda>ch. to_string (JInt ch)) [1..16]"

definition auto_pz_id :: "string \<Rightarrow> string" where
  "auto_pz_id deviceId = ''auto-pz-'' @ deviceId"

definition setAutomaticPZ :: "document \<Rightarrow> string \<Rightarrow> error + request" where
  "setAutomaticPZ doc deviceId =
     (case doc (auto_pz_id deviceId) of
        None \<Rightarrow> Inl TypeError
      | Some select \<Rightarrow>
          (let channel = parseInt (el_value select)
           in Inr (sendCommand deviceId ''set_automatic_pz''
                     [(''channel'', if channel = JInt 0 then JNull else channel)])))"

subsection \<open>Pulse-shaping client: the mode checkboxes\<close>

text \<open>
  \<^verbatim>\<open>createModulePanel\<close> writes four checkboxes, each with an id and a
  \<^verbatim>\<open>data-mode\<close> attribute; the BLR one starts checked. \<^verbatim>\<open>initializeControls\<close>
  gives each of them the same change handler:
  \<^verbatim>\<open>
  const mode = this.dataset.mode;
  sendCommand(deviceId, `set_${mode}`, { enable: this.checked });
  \<close>
\<close>

record checkbox =
  cb_id :: string
  cb_data_mode :: string
  cb_checked :: bool

definition mode_checkboxes :: "string \<Rightarrow> checkbox list" where
  "mode_checkboxes deviceId =
     [\<lparr>cb_id = ''single-mode-'' @ deviceId, cb_data_mode = ''single_mode'', cb_checked = False\<rparr>,
      \<lparr>cb_id = ''ecl-delay-'' @ deviceId, cb_data_mode = ''ecl_delay'', cb_checked = False\<rparr>,
      \<lparr>cb_id = ''blr-mode-'' @ deviceId, cb_data_mode = ''blr_mode'', cb_checked = True\<rparr>,
      \<lparr>cb_id = ''rc-mode-'' @ deviceId, cb_data_mode = ''rc_mode'', cb_checked = False\<rparr>]"

definition mode_change_handler :: "string \<Rightarrow> checkbox \<Rightarrow> request" where
  "mode_change_handler deviceId this =
     sendCommand deviceId (''set_'' @ cb_data_mode this) [(''enable'', JBool (cb_checked this))]"

text \<open>
  The handler runs only where \<^verbatim>\<open>initializeControls\<close> has attached it:
  \<^verbatim>\<open>
  function initializeControls(deviceId) {
      document.querySelectorAll(`#single-mode-${deviceId}, #ecl-delay-${deviceId},
                                 #blr-mode-${deviceId}, #rc-mode-${deviceId}`)
          .forEach(checkbox => { checkbox.addEventListener('change', function() { ... }); });
  }
  \<close>
  A listener is the element it is attached to (by id) and the device id its closure holds.
  When the selector text is refused the call throws before any listener is attached.
\<close>

definition mode_selector :: "string \<Rightarrow> string" where
  "mode_selector deviceId =
     ''#single-mode-'' @ deviceId @ '', #ecl-delay-'' @ deviceId
     @ '', #blr-mode-'' @ deviceId @ '', #rc-mode-'' @ deviceId"

record listener =
  l_target :: string
  l_device :: string

definition initializeControls ::
  "(string \<Rightarrow> error + string list) \<Rightarrow> document \<Rightarrow> string \<Rightarrow> error + listener list" where
  "initializeControls other doc deviceId =
     (case querySelectorAll_ids other doc (mode_selector deviceId) of
        Inl err \<Rightarrow> Inl err
      | Inr found \<Rightarrow> Inr (map (\<lambda>i. \<lparr>l_target = i, l_device = deviceId\<rparr>) found))"

text \<open>
  The listeners on a page where \<^verbatim>\<open>addModule\<close> has run for the devices \<open>ds\<close>:
  each call registers what its \<^verbatim>\<open>initializeControls\<close> attaches, and a call that
  throws registers nothing.
\<close>

definition registered_listeners ::
  "(string \<Rightarrow> error + string list) \<Rightarrow> document \<Rightarrow> string list \<Rightarrow> listener list" where
  "registered_listeners other doc ds =
     concat (map (\<lambda>d. case initializeControls other doc d of Inl err \<Rightarrow> [] | Inr ls \<Rightarrow> ls) ds)"

text \<open>
  Toggling a checkbox fires \<^verbatim>\<open>change\<close> on it: every listener attached to that
  element runs, with \<^verbatim>\<open>this\<close> the checkbox in its new state. The result is the list
  of commands sent.
\<close>

definition toggle_checkbox :: "listener list \<Rightarrow> checkbox \<Rightarrow> request list" where
  "toggle_checkbox ls this =
     map (\<lambda>l. mode_change_handler (l_device l) this) (filter (\<lambda>l. l_target l = cb_id this) ls)"

text \<open>
  The four operation names of the specification's table, in the order single channel
  mode, ECL delay, BLR mode, RC mode.
\<close>

definition spec_mode_operations :: "string list" where
  "spec_mode_operations =
     [''set_single_channel_mode'', ''set_ecl_delay'', ''set_blr_mode'', ''set_rc_mode'']"

subsection \<open>Pulse-shaping client: \<^verbatim>\<open>updateInitialValues\<close>\<close>

text \<open>
  The page of the pulse-shaping client: the device ids of its \<^verbatim>\<open>.device-tab\<close>
  panels (their \<^verbatim>\<open>data-device-id\<close> attributes) and its elements by id. The selector
  \<^verbatim>\<open>.device-tab[data-device-id="<deviceId>"]\<close> matches when a panel carries that id.

  An assignment \<^verbatim>\<open>el.value = v\<close>, \<^verbatim>\<open>el.checked = v\<close> or
  \<^verbatim>\<open>el.textContent = v\<close> is run by the browser, which converts and sanitises
  \<^verbatim>\<open>v\<close> according to the kind of element; the function \<open>assign\<close> stands for it
  and is a parameter.
\<close>

record page =
  device_tabs :: "string list"
  elements :: document

datatype dom_prop = Value | Checked | TextContent

record init_event =
  ev_type :: string
  ev_channel :: jsval
  ev_group :: jsval
  ev_value :: jsval
  ev_hi :: jsval
  ev_lo :: jsval

definition set_if_present :: "document \<Rightarrow> string \<Rightarrow> (element \<Rightarrow> element) \<Rightarrow> document" where
  "set_if_present doc i f = (case doc i of None \<Rightarrow> doc | Some e \<Rightarrow> doc(i \<mapsto> f e))"

definition pz_id :: "string \<Rightarrow> jsval \<Rightarrow> string" where
  "pz_id deviceId channel = ''pz-'' @ deviceId @ ''-'' @ to_string channel"

definition pz_common_id :: "string \<Rightarrow> string" where
  "pz_common_id deviceId = ''pz-common-'' @ deviceId"

definition shaping_id :: "string \<Rightarrow> jsval \<Rightarrow> string" where
  "shaping_id deviceId grp = ''shaping-'' @ deviceId @ ''-'' @ to_string grp"

definition shaping_common_id :: "string \<Rightarrow> string" where
  "shaping_common_id deviceId = ''shaping-common-'' @ deviceId"

definition gain_id :: "string \<Rightarrow> jsval \<Rightarrow> string" where
  "gain_id deviceId grp = ''gain-'' @ deviceId @ ''-'' @ to_string grp"

definition gain_common_id :: "string \<Rightarrow> string" where
  "gain_common_id deviceId = ''gain-common-'' @ deviceId"

text \<open>The \<^verbatim>\<open>switch (data.type)\<close> of \<^verbatim>\<open>updateInitialValues\<close>.\<close>

definition initial_values_switch ::
  "(dom_prop \<Rightarrow> jsval \<Rightarrow> element \<Rightarrow> element) \<Rightarrow> page \<Rightarrow> string \<Rightarrow> init_event \<Rightarrow> error + page" where
  "initial_values_switch assign pg deviceId data =
     (let doc = elements pg;
          upd = (\<lambda>i p v. Inr (pg\<lparr>elements := set_if_present doc i (assign p v)\<rparr>));
          t = ev_type data
      in if t = ''version'' then
           (case doc (''version-'' @ deviceId) of
              None \<Rightarrow> Inl TypeError
            | Some e \<Rightarrow> Inr (pg\<lparr>elements := doc(''version-'' @ deviceId \<mapsto>
                                         assign TextContent (ev_value data) e)\<rparr>))
         else if t = ''threshold'' then upd (thresh_id deviceId (ev_channel data)) Value (ev_value data)
         else if t = ''threshold_common'' then upd (thresh_common_id deviceId) Value (ev_value data)
         else if t = ''pz'' then upd (pz_id deviceId (ev_channel data)) Value (ev_value data)
         else if t = ''pz_common'' then upd (pz_common_id deviceId) Value (ev_value data)
         else if t = ''shaping_time'' then upd (shaping_id deviceId (ev_group data)) Value (ev_value data)
         else if t = ''shaping_time_common'' then upd (shaping_common_id deviceId) Value (ev_value data)
         else if t = ''gain'' then upd (gain_id deviceId (ev_group data)) Value (ev_value data)
         else if t = ''gain_common'' then upd (gain_common_id deviceId) Value (ev_value data)
         else if t = ''monitor'' then upd (''monitor-'' @ deviceId) Value (ev_value data)
         else if t = ''multiplicity'' then
           (let doc1 = set_if_present doc (''mult-hi-'' @ deviceId) (assign Value (ev_hi data));
                doc2 = set_if_present doc1 (''mult-lo-'' @ deviceId) (assign Value (ev_lo data))
            in Inr (pg\<lparr>elements := doc2\<rparr>))
         else if t = ''coincidence_window'' then upd (''coincidence-'' @ deviceId) Value (ev_value data)
         else if t = ''threshold_offset'' then upd (''threshold-offset-'' @ deviceId) Value (ev_value data)
         else if t = ''shaper_offset'' then upd (''shaper-offset-'' @ deviceId) Value (ev_value data)
         else if t = ''blr_threshold'' then upd (''blr-threshold-'' @ deviceId) Value (ev_value data)
         else if t = ''timing_filter'' then upd (''timing-filter-'' @ deviceId) Value (ev_value data)
         else if t = ''single_mode'' then upd (''single-mode-'' @ deviceId) Checked (ev_value data)
         else if t = ''ecl_delay'' then upd (''ecl-delay-'' @ deviceId) Checked (ev_value data)
         else if t = ''blr_mode'' then upd (''blr-mode-'' @ deviceId) Checked (ev_value data)
         else if t = ''rc_mode'' then upd (''rc-mode-'' @ deviceId) Checked (ev_value data)
         else Inr pg)"

text \<open>
  \<^verbatim>\<open>
  function updateInitialValues(deviceId, data) {
      const modulePanel = document.querySelector(`.device-tab[data-device-id="${deviceId}"]`);
      if (!modulePanel) return;
      switch (data.type) { ... }
  }
  \<close>
\<close>

definition updateInitialValues ::
  "(string \<Rightarrow> error + string option) \<Rightarrow> (dom_prop \<Rightarrow> jsval \<Rightarrow> element \<Rightarrow> element) \<Rightarrow>
   page \<Rightarrow> string \<Rightarrow> init_event \<Rightarrow> error + page" where
  "updateInitialValues other assign pg deviceId data =
     (case query_panel other ''device-tab'' (device_tabs pg) deviceId of
        Inl err \<Rightarrow> Inl err
      | Inr None \<Rightarrow> Inr pg
      | Inr (Some modulePanel) \<Rightarrow> initial_values_switch assign pg deviceId data)"

text \<open>
  What an event asks to be written, read off the event alone: for each field its id, the
  property that is assigned and the value. Every type names one field, except
  \<^verbatim>\<open>multiplicity\<close>, which names two, and a type without a case, which names
  none.
\<close>

definition named_writes :: "string \<Rightarrow> init_event \<Rightarrow> (string \<times> dom_prop \<times> jsval) list" where
  "named_writes deviceId data =
     (let t = ev_type data; v = ev_value data
      in if t = ''version'' then [(''version-'' @ deviceId, TextContent, v)]
         else if t = ''threshold'' then [(thresh_id deviceId (ev_channel data), Value, v)]
         else if t = ''threshold_common'' then [(thresh_common_id deviceId, Value, v)]
         else if t = ''pz'' then [(pz_id deviceId (ev_channel data), Value, v)]
         else if t = ''pz_common'' then [(pz_common_id deviceId, Value, v)]
         else if t = ''shaping_time'' then [(shaping_id deviceId (ev_group data), Value, v)]
         else if t = ''shaping_time_common'' then [(shaping_common_id deviceId, Value, v)]
         else if t = ''gain'' then [(gain_id deviceId (ev_group data), Value, v)]
         else if t = ''gain_common'' then [(gain_common_id deviceId, Value, v)]
         else if t = ''monitor'' then [(''monitor-'' @ deviceId, Value, v)]
         else if t = ''multiplicity'' then
           [(''mult-hi-'' @ deviceId, Value, ev_hi data), (''mult-lo-'' @ deviceId, Value, ev_lo data)]
         else if t = ''coincidence_window'' then [(''coincidence-'' @ deviceId, Value, v)]
         else if t = ''threshold_offset'' then [(''threshold-offset-'' @ deviceId, Value, v)]
         else if t = ''shaper_offset'' then [(''shaper-offset-'' @ deviceId, Value, v)]
         else if t = ''blr_threshold'' then [(''blr-threshold-'' @ deviceId, Value, v)]
         else if t = ''timing_filter'' then [(''timing-filter-'' @ deviceId, Value, v)]
         else if t = ''single_mode'' then [(''single-mode-'' @ deviceId, Checked, v)]
         else if t = ''ecl_delay'' then [(''ecl-delay-'' @ deviceId, Checked, v)]
         else if t = ''blr_mode'' then [(''blr-mode-'' @ deviceId, Checked, v)]
         else if t = ''rc_mode'' then [(''rc-mode-'' @ deviceId, Checked, v)]
         else [])"

text \<open>The labels of the cases of the \<^verbatim>\<open>switch\<close>.\<close>

definition case_labels :: "string list" where
  "case_labels =
     [''version'', ''threshold'', ''threshold_common'', ''pz'', ''pz_common'', ''shaping_time'',
      ''shaping_time_common'', ''gain'', ''gain_common'', ''monitor'', ''multiplicity'',
      ''coincidence_window'', ''threshold_offset'', ''shaper_offset'', ''blr_threshold'',
      ''timing_filter'', ''single_mode'', ''ecl_delay'', ''blr_mode'', ''rc_mode'']"

text \<open>
  One possible behaviour of the browser's assignments, for running the function on
  examples: the value and the text become the string of what is assigned, the checkbox
  state becomes its truth value.
\<close>

fun to_boolean :: "jsval \<Rightarrow> bool" where
  "to_boolean JUndefined = False"
| "to_boolean JNull = False"
| "to_boolean (JBool b) = b"
| "to_boolean (JInt i) = (i \<noteq> 0)"
| "to_boolean JNaN = False"
| "to_boolean (JStr s) = (s \<noteq> [])"

fun assign_plain :: "dom_prop \<Rightarrow> jsval \<Rightarrow> element \<Rightarrow> element" where
  "assign_plain Value v e = e\<lparr>el_value := to_string v\<rparr>"
| "assign_plain Checked v e = e\<lparr>el_checked := to_boolean v\<rparr>"
| "assign_plain TextContent v e = e\<lparr>el_text := to_string v\<rparr>"

text \<open>The elements of a document that differ between two documents.\<close>

definition changed_ids :: "document \<Rightarrow> document \<Rightarrow> string set" where
  "changed_ids doc doc' = {i. doc' i \<noteq> doc i}"

section \<open>High-voltage client\<close>

subsection \<open>Ramp speed and NTC selectors\<close>

text \<open>
  \<^verbatim>\<open>createModulePanel\<close> gives the ramp speed select the option values 0, 1, 2, 3;
  \<^verbatim>\<open>createChannelPanel\<close> gives each NTC select the option values 0 (Off), 1, 2, 3, 4.
  The change handlers that \<^verbatim>\<open>initializeChannelControls\<close> registers read the value
  of the select they are attached to (\<^verbatim>\<open>this.value\<close>):
  \<^verbatim>\<open>
  sendCommand(deviceId, 'set_ramp_speed', { ramp_speed_index: parseInt(this.value) });

  const ntcChannel = this.value === '0' ? null : parseInt(this.value) - 1;
  sendCommand(deviceId, 'set_temperature_compensation', { channel: ch, ntc_channel: ntcChannel });
  \<close>
  Subtracting one from NaN gives NaN.
\<close>

definition ramp_speed_options :: "string list" where
  "ramp_speed_options = [''0'', ''1'', ''2'', ''3'']"

definition ntc_options :: "string list" where
  "ntc_options = [''0'', ''1'', ''2'', ''3'', ''4'']"

definition ramp_speed_change_handler :: "string \<Rightarrow> string \<Rightarrow> request" where
  "ramp_speed_change_handler deviceId this_value =
     sendCommand deviceId ''set_ramp_speed'' [(''ramp_speed_index'', parseInt this_value)]"

fun minus_one :: "jsval \<Rightarrow> jsval" where
  "minus_one (JInt i) = JInt (i - 1)"
| "minus_one v = JNaN"

definition ntc_change_handler :: "string \<Rightarrow> int \<Rightarrow> string \<Rightarrow> request" where
  "ntc_change_handler deviceId ch this_value =
     (let ntcChannel = (if this_value = ''0'' then JNull else minus_one (parseInt this_value))
      in sendCommand deviceId ''set_temperature_compensation''
           [(''channel'', JInt ch), (''ntc_channel'', ntcChannel)])"

text \<open>The channels for which \<^verbatim>\<open>initializeChannelControls\<close> registers the handlers.\<close>

definition hv_channels :: "int list" where
  "hv_channels = [0..3]"

subsection \<open>\<^verbatim>\<open>updateModuleReadings\<close>\<close>

text \<open>
  A reading arrives as a JSON value. A JSON number is a finite double, hence a rational
  number; \<^verbatim>\<open>toFixed\<close> is defined on the exact value: the sign is split off, the
  magnitude is scaled by \<open>10 ^ f\<close> and rounded to the nearest integer, a tie going to the
  larger one, and the digits are padded with zeros to \<open>f + 1\<close> places. From \<open>10 ^ 21\<close> on
  \<^verbatim>\<open>toFixed\<close> prints the shortest digits that read back as the same double; that
  printer is the parameter \<open>big\<close>.
\<close>

datatype json = JsonNull | JsonBool bool | JsonNumber rat | JsonString string

definition toFixed :: "(rat \<Rightarrow> string) \<Rightarrow> nat \<Rightarrow> rat \<Rightarrow> string" where
  "toFixed big f x =
     (let s = (if x < 0 then ''-'' else '''');
          a = \<bar>x\<bar>
      in if a \<ge> 10 ^ 21 then s @ big a
         else
           (let n = nat \<lfloor>a * 10 ^ f + 1 / 2\<rfloor>;
                m = nat_digits n;
                k = length m;
                m1 = (if k \<le> f then replicate (f + 1 - k) CHR ''0'' @ m else m);
                k1 = length m1
            in if f \<noteq> 0 then s @ take (k1 - f) m1 @ ''.'' @ drop (k1 - f) m1
               else s @ m))"

text \<open>
  \<^verbatim>\<open>
  function updateModuleReadings(deviceId, readings) {
      for (let ch = 0; ch < 4; ch++) {
          const voltage = readings[`voltage_${ch}`];
          const current = readings[`current_${ch}`];
          if (voltage !== undefined) {
              const voltageDisplay = document.getElementById(`voltage-${deviceId}-${ch}`);
              if (voltageDisplay) { voltageDisplay.textContent = voltage.toFixed(1); }
          }
          if (current !== undefined) {
              const currentDisplay = document.getElementById(`current-${deviceId}-${ch}`);
              if (currentDisplay) { currentDisplay.textContent = current.toFixed(3); }
          }
      }
  }
  \<close>
  Calling \<^verbatim>\<open>toFixed\<close> on a value that is not a number throws, and the displays
  written before stay written: the result is either the document at the end of the
  loop, or the error together with the document at the throw.
\<close>

definition voltage_key :: "nat \<Rightarrow> string" where
  "voltage_key ch = ''voltage_'' @ nat_digits ch"

definition current_key :: "nat \<Rightarrow> string" where
  "current_key ch = ''current_'' @ nat_digits ch"

definition voltage_id :: "string \<Rightarrow> nat \<Rightarrow> string" where
  "voltage_id deviceId ch = ''voltage-'' @ deviceId @ ''-'' @ nat_digits ch"

definition current_id :: "string \<Rightarrow> nat \<Rightarrow> string" where
  "current_id deviceId ch = ''current-'' @ deviceId @ ''-'' @ nat_digits ch"

definition show_reading ::
  "(rat \<Rightarrow> string) \<Rightarrow> document \<Rightarrow> json option \<Rightarrow> string \<Rightarrow> nat \<Rightarrow> (error \<times> document) + document" where
  "show_reading big doc reading display_id f =
     (case reading of
        None \<Rightarrow> Inr doc
      | Some v \<Rightarrow>
          (case doc display_id of
             None \<Rightarrow> Inr doc
           | Some display \<Rightarrow>
               (case v of
                  JsonNumber x \<Rightarrow> Inr (doc(display_id \<mapsto> display\<lparr>el_text := toFixed big f x\<rparr>))
                | _ \<Rightarrow> Inl (TypeError, doc))))"

text \<open>The body of the loop, for one channel.\<close>

definition readings_body ::
  "(rat \<Rightarrow> string) \<Rightarrow> string \<Rightarrow> (string \<rightharpoonup> json) \<Rightarrow> nat \<Rightarrow> document \<Rightarrow> (error \<times> document) + document" where
  "readings_body big deviceId readings ch doc =
     (let voltage = readings (voltage_key ch);
          current = readings (current_key ch)
      in case show_reading big doc voltage (voltage_id deviceId ch) 1 of
           Inl err \<Rightarrow> Inl err
         | Inr doc1 \<Rightarrow> show_reading big doc1 current (current_id deviceId ch) 3)"

function readings_loop ::
  "(rat \<Rightarrow> string) \<Rightarrow> string \<Rightarrow> (string \<rightharpoonup> json) \<Rightarrow> nat \<Rightarrow> document \<Rightarrow> (error \<times> document) + document" where
  "readings_loop big deviceId readings ch doc =
     (if ch < 4 then
        (case readings_body big deviceId readings ch doc of
           Inl err \<Rightarrow> Inl err
         | Inr doc2 \<Rightarrow> readings_loop big deviceId readings (ch + 1) doc2)
      else Inr doc)"
  by pat_completeness auto
termination
  by (relation "measure (\<lambda>(big, deviceId, readings, ch, doc). 4 - ch)") auto

text \<open>
  What a display holds once a reading has been shown in it: the formatted number when
  both the display and a numeric reading are there, and what it held before otherwise.
\<close>

definition shown :: "(rat \<Rightarrow> string) \<Rightarrow> document \<Rightarrow> string \<Rightarrow> json option \<Rightarrow> nat \<Rightarrow> element option" where
  "shown big doc i reading f =
     (case doc i of
        None \<Rightarrow> None
      | Some display \<Rightarrow>
          (case reading of
             Some (JsonNumber x) \<Rightarrow> Some (display\<lparr>el_text := toFixed big f x\<rparr>)
           | _ \<Rightarrow> Some display))"

definition numeric :: "json option \<Rightarrow> bool" where
  "numeric reading = (case reading of Some (JsonNumber x) \<Rightarrow> True | Some _ \<Rightarrow> False | None \<Rightarrow> True)"

declare readings_loop.simps [simp del]

definition updateModuleReadings ::
  "(rat \<Rightarrow> string) \<Rightarrow> document \<Rightarrow> string \<Rightarrow> (string \<rightharpoonup> json) \<Rightarrow> (error \<times> document) + document" where
  "updateModuleReadings big doc deviceId readings = readings_loop big deviceId readings 0 doc"

subsection \<open>\<^verbatim>\<open>initializeChannelControls\<close>: attaching the listeners\<close>

text \<open>
  The page of the high-voltage client is the list of its module panels, each written by
  \<^verbatim>\<open>createModulePanel\<close> and known by its \<^verbatim>\<open>data-device-id\<close>. Inside the panel
  of \<open>p\<close> the elements with an id are, in document order, the ramp speed select and, for
  each channel, the voltage display, the current display, the custom ramp checkbox and
  the auto shutdown checkbox; each channel panel also holds one NTC select (found by its
  class).
\<close>

datatype hv_control =
  RampSpeedSelect | VoltageDisplay nat | CurrentDisplay nat | RampCheckbox nat
  | AutoShutdownCheckbox nat | NtcCombo nat

definition panel_ids :: "string \<Rightarrow> (string \<times> hv_control) list" where
  "panel_ids p =
     (''ramp-speed-'' @ p, RampSpeedSelect)
     # concat (map (\<lambda>ch. [(voltage_id p ch, VoltageDisplay ch),
                            (current_id p ch, CurrentDisplay ch),
                            (''ramp-'' @ p @ ''-'' @ nat_digits ch, RampCheckbox ch),
                            (''auto-'' @ p @ ''-'' @ nat_digits ch, AutoShutdownCheckbox ch)])
         [0..<4])"

text \<open>
  \<^verbatim>\<open>modulePanel.querySelector(sel)\<close> for a text of id selectors, inside the panel of
  \<open>p\<close>: the first element of the panel, in document order, whose id is selected.
\<close>

definition query_in_panel ::
  "(string \<Rightarrow> string \<Rightarrow> error + hv_control option) \<Rightarrow> string \<Rightarrow> string \<Rightarrow> error + hv_control option" where
  "query_in_panel other p sel =
     (case parse_id_list sel of
        Ids ns \<Rightarrow> Inr (map_option snd (find (\<lambda>(i, c). i \<in> set ns) (panel_ids p)))
      | Invalid \<Rightarrow> Inl SyntaxError
      | Unparsed \<Rightarrow> other p sel)"

text \<open>
  \<^verbatim>\<open>
  function initializeChannelControls(deviceId) {
      const modulePanel = document.querySelector(`.module-panel[data-device-id="${deviceId}"]`);
      if (!modulePanel) return;
      const rampSpeedSelect = modulePanel.querySelector(`#ramp-speed-${deviceId}`);
      if (rampSpeedSelect) { rampSpeedSelect.addEventListener('change', function() { ... }); }
      for (let ch = 0; ch < 4; ch++) {
          const channelPanel = modulePanel.querySelector(`.channel-panel[data-channel="${ch}"]`);
          if (!channelPanel) continue;
          ...
          const ntcCombo = channelPanel.querySelector('.ntc-combo');
          if (ntcCombo) { ntcCombo.addEventListener('change', function() { ... }); }
          ...
      }
  }
  \<close>
  A listener is the element it is attached to (its panel and which control it is) and
  the handler with the values its closure holds. The selectors of the loop are fixed
  texts that find the channel panels and the selects that \<^verbatim>\<open>createChannelPanel\<close>
  wrote. The listeners of the other controls of a channel (polarity, presets, limits,
  power, auto shutdown, reference temperature, slope) are attached in the same loop and
  are not part of this model. A selector text that is refused makes the function throw
  at that point: what comes after is not run.
\<close>

datatype hv_handler = RampSpeedHandler string | NtcHandler string nat

record hv_listener =
  hl_panel :: string
  hl_control :: hv_control
  hl_handler :: hv_handler

definition initializeChannelControls ::
  "(string \<Rightarrow> error + string option) \<Rightarrow> (string \<Rightarrow> string \<Rightarrow> error + hv_control option) \<Rightarrow>
   string list \<Rightarrow> string \<Rightarrow> error + hv_listener list" where
  "initializeChannelControls other_panel other_within panels deviceId =
     (case query_panel other_panel ''module-panel'' panels deviceId of
        Inl err \<Rightarrow> Inl err
      | Inr None \<Rightarrow> Inr []
      | Inr (Some modulePanel) \<Rightarrow>
          (case query_in_panel other_within modulePanel (''#ramp-speed-'' @ deviceId) of
             Inl err \<Rightarrow> Inl err
           | Inr rampSpeedSelect \<Rightarrow>
               Inr ((case rampSpeedSelect of
                       None \<Rightarrow> []
                     | Some c \<Rightarrow> [\<lparr>hl_panel = modulePanel, hl_control = c,
                                   hl_handler = RampSpeedHandler deviceId\<rparr>])
                    @ map (\<lambda>ch. \<lparr>hl_panel = modulePanel, hl_control = NtcCombo ch,
                                  hl_handler = NtcHandler deviceId ch\<rparr>) [0..<4])))"

text \<open>
  The listeners on a page where \<^verbatim>\<open>addModule\<close> has run for the devices \<open>ds\<close>; a
  call whose \<^verbatim>\<open>initializeChannelControls\<close> throws has attached nothing.
\<close>

definition registered_hv_listeners ::
  "(string \<Rightarrow> error + string option) \<Rightarrow> (string \<Rightarrow> string \<Rightarrow> error + hv_control option) \<Rightarrow>
   string list \<Rightarrow> string list \<Rightarrow> hv_listener list" where
  "registered_hv_listeners other_panel other_within panels ds =
     concat (map (\<lambda>d. case initializeChannelControls other_panel other_within panels d of
                          Inl err \<Rightarrow> []
                        | Inr ls \<Rightarrow> ls) ds)"

text \<open>
  Choosing an option of a select fires \<^verbatim>\<open>change\<close> on it: every listener attached
  to that element runs with \<^verbatim>\<open>this.value\<close> the value of the option. The result is
  the list of commands sent.
\<close>

fun run_hv_handler :: "hv_handler \<Rightarrow> string \<Rightarrow> request" where
  "run_hv_handler (RampSpeedHandler deviceId) this_value = ramp_speed_change_handler deviceId this_value"
| "run_hv_handler (NtcHandler deviceId ch) this_value = ntc_change_handler deviceId (int ch) this_value"

definition change_select :: "hv_listener list \<Rightarrow> string \<Rightarrow> hv_control \<Rightarrow> string \<Rightarrow> request list" where
  "change_select ls p c this_value =
     map (\<lambda>l. run_hv_handler (hl_handler l) this_value)
       (filter (\<lambda>l. hl_panel l = p \<and> hl_control l = c) ls)"

section \<open>Module management (both clients)\<close>

text \<open>
  \<^verbatim>\<open>let modules = {}; let currentModuleId = null;\<close>

  \<^verbatim>\<open>modules\<close> is a plain object used as a map from device id to module. Its own
  properties are an association list in insertion order. A read \<^verbatim>\<open>modules[k]\<close> that
  finds no own property continues in \<^verbatim>\<open>Object.prototype\<close>, whose members are
  functions or objects, hence truthy.
\<close>

record module_entry =
  m_deviceId :: string
  m_port :: string
  m_tabButton :: nat
  m_tabContent :: nat

definition object_prototype_names :: "string list" where
  "object_prototype_names =
     [''constructor'', ''hasOwnProperty'', ''isPrototypeOf'', ''propertyIsEnumerable'',
      ''toLocaleString'', ''toString'', ''valueOf'', ''__proto__'',
      ''__defineGetter__'', ''__defineSetter__'', ''__lookupGetter__'', ''__lookupSetter__'']"

text \<open>The test \<^verbatim>\<open>if (modules[deviceId])\<close>.\<close>

definition truthy_at :: "(string \<times> module_entry) list \<Rightarrow> string \<Rightarrow> bool" where
  "truthy_at ms k = (map_of ms k \<noteq> None \<or> k \<in> set object_prototype_names)"

text \<open>
  \<^verbatim>\<open>Object.keys\<close>: the keys that are array indices (canonical decimal numerals below
  \<open>2^32 - 1\<close>) in ascending numeric order, then the other keys in insertion order.
\<close>

definition array_index :: "string \<Rightarrow> nat option" where
  "array_index k =
     (case read_digits 10 k None of
        None \<Rightarrow> None
      | Some n \<Rightarrow> (if nat_digits n = k \<and> n < 4294967295 then Some n else None))"

definition object_keys :: "(string \<times> 'v) list \<Rightarrow> string list" where
  "object_keys ps =
     (let ks = map fst ps
      in sort_key (\<lambda>k. case array_index k of None \<Rightarrow> 0 | Some n \<Rightarrow> n)
           (filter (\<lambda>k. array_index k \<noteq> None) ks)
         @ filter (\<lambda>k. array_index k = None) ks)"

text \<open>
  The part of the page that the module functions touch: whether the \<^verbatim>\<open>.tab-header\<close>
  exists, the tab buttons inside it and the tab contents inside \<^verbatim>\<open>#module-tabs\<close>,
  each a node with a handle. The container \<^verbatim>\<open>#module-tabs\<close> precedes every tab
  content in document order, so \<^verbatim>\<open>getElementById('module-tabs')\<close> finds the container.
\<close>

record tab_button =
  tb_node :: nat
  tb_text :: string
  tb_target :: string
  tb_active :: bool

record tab_content =
  tc_node :: nat
  tc_id :: string
  tc_panel :: string
  tc_active :: bool

record client =
  modules :: "(string \<times> module_entry) list"
  currentModuleId :: "string option"
  tab_header :: bool
  container_active :: bool
  tab_buttons :: "tab_button list"
  tab_contents :: "tab_content list"
  next_node :: nat

definition init_client :: client where
  "init_client =
     \<lparr>modules = [], currentModuleId = None, tab_header = False, container_active = False,
      tab_buttons = [], tab_contents = [], next_node = 0\<rparr>"

datatype client_kind = HighVoltage | PulseShaping

fun tab_label :: "client_kind \<Rightarrow> nat \<Rightarrow> string" where
  "tab_label HighVoltage n = ''Module '' @ nat_digits n"
| "tab_label PulseShaping n = ''Device '' @ nat_digits n"

text \<open>Adding the class \<^verbatim>\<open>active\<close> to the first tab content with a given id.\<close>

fun activate_first :: "string \<Rightarrow> tab_content list \<Rightarrow> tab_content list" where
  "activate_first i [] = []"
| "activate_first i (t # ts) =
     (if tc_id t = i then t\<lparr>tc_active := True\<rparr> # ts else t # activate_first i ts)"

text \<open>
  \<^verbatim>\<open>
  function switchModule(deviceId) {
      document.querySelectorAll('.tab-content').forEach(tab => tab.classList.remove('active'));
      document.querySelectorAll('.tab-button').forEach(btn => btn.classList.remove('active'));
      const tabContent = document.getElementById(`module-${deviceId}`);
      if (tabContent) tabContent.classList.add('active');
      if (modules[deviceId] && modules[deviceId].tabButton)
          modules[deviceId].tabButton.classList.add('active');
      currentModuleId = deviceId;
  }
  \<close>
\<close>

definition switchModule :: "client \<Rightarrow> string \<Rightarrow> client" where
  "switchModule st deviceId =
     (let contents0 = map (\<lambda>t. t\<lparr>tc_active := False\<rparr>) (tab_contents st);
          buttons0 = map (\<lambda>b. b\<lparr>tb_active := False\<rparr>) (tab_buttons st);
          target = ''module-'' @ deviceId;
          container1 = (container_active st \<or> target = ''module-tabs'');
          contents1 = (if target = ''module-tabs'' then contents0 else activate_first target contents0);
          buttons1 = (case map_of (modules st) deviceId of
                        None \<Rightarrow> buttons0
                      | Some m \<Rightarrow> map (\<lambda>b. if tb_node b = m_tabButton m then b\<lparr>tb_active := True\<rparr> else b)
                                    buttons0)
      in st\<lparr>container_active := container1, tab_contents := contents1, tab_buttons := buttons1,
            currentModuleId := Some deviceId\<rparr>)"

text \<open>
  \<^verbatim>\<open>addModule(deviceId, port)\<close>: returns at once when \<^verbatim>\<open>modules[deviceId]\<close> is
  truthy; otherwise creates the header if it is missing, a tab button labelled with the
  number of modules plus one, a tab content with id \<^verbatim>\<open>module-<deviceId>\<close> holding the
  module panel, stores the module and switches to it. (Registering the listeners and the
  first \<^verbatim>\<open>get_version\<close> request come after and leave this state as it is.)
\<close>

definition addModule :: "client_kind \<Rightarrow> client \<Rightarrow> string \<Rightarrow> string \<Rightarrow> client" where
  "addModule kind st deviceId port =
     (if truthy_at (modules st) deviceId then st
      else
        (let n = next_node st;
             tabButton = \<lparr>tb_node = n, tb_text = tab_label kind (length (object_keys (modules st)) + 1),
                          tb_target = deviceId, tb_active = False\<rparr>;
             tabContent = \<lparr>tc_node = n + 1, tc_id = ''module-'' @ deviceId, tc_panel = deviceId,
                           tc_active = False\<rparr>;
             m = \<lparr>m_deviceId = deviceId, m_port = port, m_tabButton = n, m_tabContent = n + 1\<rparr>;
             st1 = st\<lparr>tab_header := True,
                      tab_buttons := tab_buttons st @ [tabButton],
                      tab_contents := tab_contents st @ [tabContent],
                      next_node := n + 2,
                      modules := AList.update deviceId m (modules st)\<rparr>
         in switchModule st1 deviceId))"

text \<open>
  \<^verbatim>\<open>
  function removeModule(deviceId) {
      if (modules[deviceId]) {
          if (modules[deviceId].tabButton) modules[deviceId].tabButton.remove();
          if (modules[deviceId].tabContent) modules[deviceId].tabContent.remove();
          delete modules[deviceId];
          const remainingIds = Object.keys(modules);
          if (remainingIds.length > 0) switchModule(remainingIds[0]);
          else currentModuleId = null;
      }
  }
  \<close>
  A member of \<^verbatim>\<open>Object.prototype\<close> has neither a \<^verbatim>\<open>tabButton\<close> nor a
  \<^verbatim>\<open>tabContent\<close>, and \<^verbatim>\<open>delete\<close> of a name that is not an own property does
  nothing.
\<close>

definition removeModule :: "client \<Rightarrow> string \<Rightarrow> client" where
  "removeModule st deviceId =
     (if truthy_at (modules st) deviceId then
        (let st1 = (case map_of (modules st) deviceId of
                      None \<Rightarrow> st
                    | Some m \<Rightarrow>
                        st\<lparr>tab_buttons := filter (\<lambda>b. tb_node b \<noteq> m_tabButton m) (tab_buttons st),
                           tab_contents := filter (\<lambda>t. tc_node t \<noteq> m_tabContent m) (tab_contents st)\<rparr>);
             st2 = st1\<lparr>modules := AList.delete deviceId (modules st1)\<rparr>;
             remainingIds = object_keys (modules st2)
         in case remainingIds of
              k # _ \<Rightarrow> switchModule st2 k
            | [] \<Rightarrow> st2\<lparr>currentModuleId := None\<rparr>)
      else st)"

text \<open>The socket handler: \<^verbatim>\<open>socket.on('device_disconnected', data => removeModule(data.device_id))\<close>.\<close>

definition on_device_disconnected :: "client \<Rightarrow> string \<Rightarrow> client" where
  "on_device_disconnected st device_id = removeModule st device_id"

text \<open>Sequences of calls, run from a state.\<close>

datatype call = AddModule string string | RemoveModule string

fun run_call :: "client_kind \<Rightarrow> client \<Rightarrow> call \<Rightarrow> client" where
  "run_call kind st (AddModule deviceId port) = addModule kind st deviceId port"
| "run_call kind st (RemoveModule deviceId) = removeModule st deviceId"

definition run_calls :: "client_kind \<Rightarrow> client \<Rightarrow> call list \<Rightarrow> client" where
  "run_calls kind st cs = foldl (run_call kind) st cs"

text \<open>The keys of the map, and the state invariant on the current module.\<close>

definition module_ids :: "client \<Rightarrow> string set" where
  "module_ids st = fst ` set (modules st)"

definition current_ok :: "client \<Rightarrow> bool" where
  "current_ok st =
     ((case currentModuleId st of None \<Rightarrow> True | Some k \<Rightarrow> k \<in> module_ids st)
      \<and> (currentModuleId st = None \<longleftrightarrow> modules st = []))"

section \<open>Properties\<close>

subsection \<open>Numerals: printing and \<^verbatim>\<open>parseInt\<close> are inverse\<close>

lemma digit_char_simps:
  "digit_char 0 = CHR ''0''" "digit_char 1 = CHR ''1''" "digit_char 2 = CHR ''2''"
  "digit_char 3 = CHR ''3''" "digit_char 4 = CHR ''4''" "digit_char 5 = CHR ''5''"
  "digit_char 6 = CHR ''6''" "digit_char 7 = CHR ''7''" "digit_char 8 = CHR ''8''"
  "digit_char 9 = CHR ''9''" "digit_char (Suc 0) = CHR ''1''"
  by code_simp+

lemma lt10_cases: "d < 10 \<Longrightarrow> d \<in> {0, 1, 2, 3, 4, 5, 6, 7, 8, 9::nat}"
  by auto

lemma digit_val_digit_char: "d < 10 \<Longrightarrow> digit_val 10 (digit_char d) = Some d"
  by (drule lt10_cases) (auto simp: digit_char_simps digit_val_def)

lemma digit_char_plain:
  "d < 10 \<Longrightarrow> \<not> is_space (digit_char d) \<and> digit_char d \<noteq> CHR ''+'' \<and> digit_char d \<noteq> CHR ''-''
     \<and> digit_char d \<noteq> CHR ''x'' \<and> digit_char d \<noteq> CHR ''X''"
  by (drule lt10_cases) (auto simp: digit_char_simps is_space_def)

lemma nat_digits_lt10: "n < 10 \<Longrightarrow> nat_digits n = [digit_char n]"
  by (simp add: nat_digits.simps)

lemma nat_digits_shape:
  "\<exists>d cs. d < 10 \<and> nat_digits n = digit_char d # cs \<and> (\<forall>c\<in>set cs. \<exists>e<10. c = digit_char e)"
proof (induction n rule: nat_digits.induct)
  case (1 n)
  show ?case
  proof (cases "n < 10")
    case True
    then show ?thesis by (auto simp: nat_digits_lt10)
  next
    case False
    with 1 obtain d cs where h: "d < 10" "nat_digits (n div 10) = digit_char d # cs"
      "\<forall>c\<in>set cs. \<exists>e<10. c = digit_char e" by blast
    have "nat_digits n = digit_char d # (cs @ [digit_char (n mod 10)])"
      using False h(2) by (subst nat_digits.simps) simp
    moreover have "\<exists>e<10. digit_char (n mod 10) = digit_char e"
      by (rule exI [of _ "n mod 10"]) simp
    then have "\<forall>c\<in>set (cs @ [digit_char (n mod 10)]). \<exists>e<10. c = digit_char e"
      using h(3) by auto
    ultimately show ?thesis using h(1) by blast
  qed
qed

lemma read_digits_append:
  "\<forall>c\<in>set xs. digit_val r c \<noteq> None \<Longrightarrow>
   read_digits r (xs @ ys) acc = read_digits r ys (read_digits r xs acc)"
  by (induction xs arbitrary: acc) auto

lemma nat_digits_valid: "c \<in> set (nat_digits n) \<Longrightarrow> digit_val 10 c \<noteq> None"
  using nat_digits_shape [of n] by (fastforce simp: digit_val_digit_char)

lemma read_nat_digits: "read_digits 10 (nat_digits n) None = Some n"
proof (induction n rule: nat_digits.induct)
  case (1 n)
  show ?case
  proof (cases "n < 10")
    case True
    then show ?thesis by (simp add: nat_digits_lt10 digit_val_digit_char)
  next
    case False
    have "read_digits 10 (nat_digits n) None
          = read_digits 10 [digit_char (n mod 10)] (read_digits 10 (nat_digits (n div 10)) None)"
      using False by (subst nat_digits.simps) (simp add: read_digits_append nat_digits_valid)
    also have "\<dots> = Some (n div 10 * 10 + n mod 10)"
      using 1 False by (simp add: digit_val_digit_char)
    finally show ?thesis by simp
  qed
qed

lemma parseInt_core:
  assumes "dropWhile is_space s = s"
    and "(case s of c # _ \<Rightarrow> c = CHR ''-'' | [] \<Rightarrow> False) = ng"
    and "(case s of c # cs \<Rightarrow> (if c = CHR ''+'' \<or> c = CHR ''-'' then cs else s) | [] \<Rightarrow> s) = t"
    and "take 2 t \<noteq> ''0x''" and "take 2 t \<noteq> ''0X''"
    and "read_digits 10 t None = Some n"
  shows "parseInt s = JInt (if ng then - int n else int n)"
  unfolding parseInt_def Let_def assms(1) assms(2) assms(3)
  using assms(4-6) by (simp only: if_False simp_thms option.case)

lemma parseInt_digits:
  assumes "d < 10" and "\<forall>c\<in>set cs. \<exists>e<10. c = digit_char e"
    and "read_digits 10 (digit_char d # cs) None = Some n"
  shows "parseInt (digit_char d # cs) = JInt (int n)"
    and "parseInt (CHR ''-'' # digit_char d # cs) = JInt (- int n)"
proof -
  have "take 2 (digit_char d # cs) \<noteq> ''0x'' \<and> take 2 (digit_char d # cs) \<noteq> ''0X''"
  proof (cases cs)
    case Nil
    then show ?thesis by simp
  next
    case (Cons c cs')
    then obtain e where "e < 10" "c = digit_char e" using assms(2) by auto
    then show ?thesis using Cons digit_char_plain [of e] by simp
  qed
  then have nohex: "take 2 (digit_char d # cs) \<noteq> ''0x''" "take 2 (digit_char d # cs) \<noteq> ''0X''"
    by blast+
  have s1: "dropWhile is_space (digit_char d # cs) = digit_char d # cs"
    using digit_char_plain [OF assms(1)] by simp
  have s2: "dropWhile is_space (CHR ''-'' # digit_char d # cs) = CHR ''-'' # digit_char d # cs"
    by (simp add: is_space_def)
  show "parseInt (digit_char d # cs) = JInt (int n)"
    using parseInt_core [OF s1 _ _ nohex assms(3), of False] digit_char_plain [OF assms(1)]
    by simp
  show "parseInt (CHR ''-'' # digit_char d # cs) = JInt (- int n)"
    using parseInt_core [OF s2 _ _ nohex assms(3), of True] by simp
qed

lemma parseInt_int_to_string: "parseInt (int_to_string i) = JInt i"
proof -
  define n where "n = nat \<bar>i\<bar>"
  obtain d cs where h: "d < 10" "nat_digits n = digit_char d # cs"
    "\<forall>c\<in>set cs. \<exists>e<10. c = digit_char e" using nat_digits_shape by blast
  have r: "read_digits 10 (digit_char d # cs) None = Some n"
    using read_nat_digits [of n] h(2) by simp
  show ?thesis
  proof (cases "i < 0")
    case True
    then have "int_to_string i = CHR ''-'' # digit_char d # cs"
      using h(2) by (simp add: int_to_string_def n_def)
    then show ?thesis using parseInt_digits(2) [OF h(1) h(3) r] True by (simp add: n_def)
  next
    case False
    then have "int_to_string i = digit_char d # cs"
      using h(2) by (simp add: int_to_string_def n_def)
    then show ?thesis using parseInt_digits(1) [OF h(1) h(3) r] False by (simp add: n_def)
  qed
qed

lemma parseInt_literals:
  "parseInt ''0'' = JInt 0" "parseInt ''1'' = JInt 1" "parseInt ''2'' = JInt 2"
  "parseInt ''3'' = JInt 3" "parseInt ''4'' = JInt 4"
  by code_simp+

lemma to_string_literals:
  "to_string (JInt 0) = ''0''" "to_string (JInt 1) = ''1''" "to_string (JInt 2) = ''2''"
  "to_string (JInt 3) = ''3''" "to_string (JInt 4) = ''4''"
  by code_simp+

lemma to_string_JInt_inject: "to_string (JInt i) = to_string (JInt j) \<Longrightarrow> i = j"
proof -
  assume "to_string (JInt i) = to_string (JInt j)"
  then have "parseInt (int_to_string i) = parseInt (int_to_string j)" by simp
  then show "i = j" by (simp add: parseInt_int_to_string)
qed

subsection \<open>Selector texts built from plain device ids\<close>

lemma takeWhile_all: "list_all P xs \<Longrightarrow> takeWhile P (xs @ ys) = xs @ takeWhile P ys"
  by (induction xs) auto

lemma dropWhile_all: "list_all P xs \<Longrightarrow> dropWhile P (xs @ ys) = dropWhile P ys"
  by (induction xs) auto

lemma parse_plain:
  assumes "list_all css_name_char n" and "n \<noteq> []" and "css_name_start (hd n)"
  shows "parse_id_list (CHR ''#'' # n) = Ids [n]"
    and "parse_id_list (CHR ''#'' # n @ CHR '','' # CHR '' '' # s)
         = (case parse_id_list s of Ids ns \<Rightarrow> Ids (n # ns) | r \<Rightarrow> r)"
    and "c \<noteq> CHR ''*'' \<Longrightarrow> parse_id_list (CHR ''#'' # n @ CHR ''/'' # c # s) = Invalid"
proof -
  have a: "takeWhile css_name_char n = n" "dropWhile css_name_char n = []"
    using assms(1) takeWhile_all [of css_name_char n "[]"] dropWhile_all [of css_name_char n "[]"]
    by simp_all
  show "parse_id_list (CHR ''#'' # n) = Ids [n]"
    using assms(2,3) by (simp add: parse_id_list.simps a)
  have sp: "\<not> css_name_char CHR '',''" "\<not> css_name_char CHR ''/''"
    by (simp_all add: css_name_char_def)
  let ?t = "n @ CHR '','' # CHR '' '' # s"
  have b: "takeWhile css_name_char ?t = n" "dropWhile css_name_char ?t = CHR '','' # CHR '' '' # s"
    using assms(1) takeWhile_all [of css_name_char n "CHR '','' # CHR '' '' # s"]
      dropWhile_all [of css_name_char n "CHR '','' # CHR '' '' # s"] sp
    by simp_all
  have h: "hd ?t = hd n"
    using assms(2) by simp
  show "parse_id_list (CHR ''#'' # ?t)
         = (case parse_id_list s of Ids ns \<Rightarrow> Ids (n # ns) | r \<Rightarrow> r)"
    unfolding parse_id_list.simps(2) [of "CHR ''#''" ?t] b h
    using assms(2,3) by simp
  assume c: "c \<noteq> CHR ''*''"
  let ?u = "n @ CHR ''/'' # c # s"
  have d: "takeWhile css_name_char ?u = n" "dropWhile css_name_char ?u = CHR ''/'' # c # s"
    using assms(1) takeWhile_all [of css_name_char n "CHR ''/'' # c # s"]
      dropWhile_all [of css_name_char n "CHR ''/'' # c # s"] sp
    by simp_all
  have hu: "hd ?u = hd n"
    using assms(2) by simp
  show "parse_id_list (CHR ''#'' # ?u) = Invalid"
    unfolding parse_id_list.simps(2) [of "CHR ''#''" ?u] d hu
    using assms(2,3) c by simp
qed

lemma name_chars_string_plain: "list_all css_name_char d \<Longrightarrow> css_string_plain d"
proof -
  have "css_name_char c \<Longrightarrow> c \<notin> set [CHR 0x22, CHR 0x5C, CHR 0x0A, CHR 0x0D, CHR 0x0C, CHR 0x00]" for c
    by (auto simp: css_name_char_def)
  then show "list_all css_name_char d \<Longrightarrow> css_string_plain d"
    by (auto simp: css_string_plain_def list_all_iff)
qed

lemma query_panel_plain:
  "list_all css_name_char d \<Longrightarrow>
   query_panel other cls panels d = Inr (if d \<in> set panels then Some d else None)"
  by (simp add: query_panel_def name_chars_string_plain)

lemma singleton_once:
  "distinct ds \<Longrightarrow> d \<in> set ds \<Longrightarrow> concat (map (\<lambda>d'. if d' = d then xs else []) ds) = xs"
  by (induction ds) auto

lemma filter_concat_map: "filter P (concat (map f ds)) = concat (map (\<lambda>d. filter P (f d)) ds)"
  by (induction ds) auto

subsection \<open>Commands of the pulse-shaping client\<close>

text \<open>
  C1. \<^verbatim>\<open>setThreshold(deviceId, channel)\<close> sends \<^verbatim>\<open>set_threshold\<close> for that device
  with the channel argument unchanged in the \<^verbatim>\<open>channel\<close> field. The value is
  \<^verbatim>\<open>parseInt\<close> of the common input (the element \<^verbatim>\<open>thresh-common-<deviceId>\<close>)
  when the channel is the sentinel 17, and of the channel's own input (the element
  \<^verbatim>\<open>thresh-<deviceId>-<channel>\<close>) when the channel is 1 to 16. This holds for every
  device id whose inputs are on the page.
\<close>

theorem setThreshold_command:
  "(doc (thresh_common_id deviceId) = Some common \<longrightarrow>
      setThreshold doc deviceId 17 =
        Inr \<lparr>req_device = deviceId, req_command = ''set_threshold'',
             req_params = [(''channel'', JInt 17), (''value'', parseInt (el_value common))]\<rparr>)
   \<and> (1 \<le> channel \<and> channel \<le> 16 \<and> doc (thresh_id deviceId (JInt channel)) = Some input \<longrightarrow>
      setThreshold doc deviceId channel =
        Inr \<lparr>req_device = deviceId, req_command = ''set_threshold'',
             req_params = [(''channel'', JInt channel), (''value'', parseInt (el_value input))]\<rparr>)"
  by (simp add: setThreshold_def sendCommand_def)

theorem setThreshold_command_witness:
  "setThreshold
     [''thresh-common-COM3'' \<mapsto> \<lparr>el_value = ''200'', el_checked = False, el_text = ''''\<rparr>,
      ''thresh-COM3-5'' \<mapsto> \<lparr>el_value = ''42'', el_checked = False, el_text = ''''\<rparr>] ''COM3'' 17
     = Inr \<lparr>req_device = ''COM3'', req_command = ''set_threshold'',
            req_params = [(''channel'', JInt 17), (''value'', JInt 200)]\<rparr>
   \<and> setThreshold
     [''thresh-common-COM3'' \<mapsto> \<lparr>el_value = ''200'', el_checked = False, el_text = ''''\<rparr>,
      ''thresh-COM3-5'' \<mapsto> \<lparr>el_value = ''42'', el_checked = False, el_text = ''''\<rparr>] ''COM3'' 5
     = Inr \<lparr>req_device = ''COM3'', req_command = ''set_threshold'',
            req_params = [(''channel'', JInt 5), (''value'', JInt 42)]\<rparr>"
proof -
  let ?c = "\<lparr>el_value = ''200'', el_checked = False, el_text = ''''\<rparr>"
  let ?i = "\<lparr>el_value = ''42'', el_checked = False, el_text = ''''\<rparr>"
  let ?doc = "[''thresh-common-COM3'' \<mapsto> ?c, ''thresh-COM3-5'' \<mapsto> ?i]"
  have ids: "thresh_common_id ''COM3'' = ''thresh-common-COM3''"
    "thresh_id ''COM3'' (JInt 5) = ''thresh-COM3-5''"
    by code_simp+
  have vals: "parseInt ''200'' = JInt 200" "parseInt ''42'' = JInt 42"
    by code_simp+
  show ?thesis
    using setThreshold_command [of ?doc "''COM3''" ?c 5 ?i]
    by (simp add: ids vals)
qed

lemma mode_selector_plain:
  assumes "list_all css_name_char d"
  shows "parse_id_list (mode_selector d)
         = Ids [''single-mode-'' @ d, ''ecl-delay-'' @ d, ''blr-mode-'' @ d, ''rc-mode-'' @ d]"
proof -
  have p: "list_all css_name_char (''single-mode-'' @ d)" "list_all css_name_char (''ecl-delay-'' @ d)"
    "list_all css_name_char (''blr-mode-'' @ d)" "list_all css_name_char (''rc-mode-'' @ d)"
    using assms by (simp_all add: css_name_char_def)
  have n: "''single-mode-'' @ d \<noteq> []" "''ecl-delay-'' @ d \<noteq> []" "''blr-mode-'' @ d \<noteq> []"
    "''rc-mode-'' @ d \<noteq> []"
    by simp_all
  have h: "css_name_start (hd (''single-mode-'' @ d))" "css_name_start (hd (''ecl-delay-'' @ d))"
    "css_name_start (hd (''blr-mode-'' @ d))" "css_name_start (hd (''rc-mode-'' @ d))"
    by (simp_all add: css_name_start_def)
  have eq: "mode_selector d =
      CHR ''#'' # (''single-mode-'' @ d) @ CHR '','' # CHR '' '' #
      (CHR ''#'' # (''ecl-delay-'' @ d) @ CHR '','' # CHR '' '' #
       (CHR ''#'' # (''blr-mode-'' @ d) @ CHR '','' # CHR '' '' #
        (CHR ''#'' # (''rc-mode-'' @ d))))"
    by (simp add: mode_selector_def)
  show ?thesis
    unfolding eq
    by (simp only: parse_plain(2) [OF p(1) n(1) h(1)] parse_plain(2) [OF p(2) n(2) h(2)]
        parse_plain(2) [OF p(3) n(3) h(3)] parse_plain(1) [OF p(4) n(4) h(4)] id_selectors.case)
qed

lemma initializeControls_plain:
  assumes "list_all css_name_char d"
  shows "initializeControls other doc d
         = Inr (map (\<lambda>i. \<lparr>l_target = i, l_device = d\<rparr>)
                 (filter (\<lambda>i. doc i \<noteq> None)
                    [''single-mode-'' @ d, ''ecl-delay-'' @ d, ''blr-mode-'' @ d, ''rc-mode-'' @ d]))"
  by (simp add: initializeControls_def querySelectorAll_ids_def mode_selector_plain [OF assms])

lemma mode_ids_filter:
  assumes "x = ''single-mode-'' @ d \<or> x = ''ecl-delay-'' @ d \<or> x = ''blr-mode-'' @ d \<or> x = ''rc-mode-'' @ d"
    and "doc x \<noteq> None"
  shows "filter (\<lambda>i. doc i \<noteq> None \<and> i = x)
           [''single-mode-'' @ d', ''ecl-delay-'' @ d', ''blr-mode-'' @ d', ''rc-mode-'' @ d']
         = (if d' = d then [x] else [])"
proof -
  consider (s) "x = ''single-mode-'' @ d" | (e) "x = ''ecl-delay-'' @ d"
    | (b) "x = ''blr-mode-'' @ d" | (r) "x = ''rc-mode-'' @ d"
    using assms(1) by blast
  then show ?thesis
  proof cases
    case s then show ?thesis using assms(2) by simp
  next
    case e then show ?thesis using assms(2) by simp
  next
    case b then show ?thesis using assms(2) by simp
  next
    case r then show ?thesis using assms(2) by simp
  qed
qed

lemma mode_checkbox_ids:
  assumes "cb \<in> set (mode_checkboxes d)"
  shows "cb_id cb = ''single-mode-'' @ d \<or> cb_id cb = ''ecl-delay-'' @ d
         \<or> cb_id cb = ''blr-mode-'' @ d \<or> cb_id cb = ''rc-mode-'' @ d"
proof -
  have "cb_id cb \<in> set (map cb_id (mode_checkboxes d))"
    using assms by simp
  then show ?thesis
    by (simp add: mode_checkboxes_def)
qed

lemma mode_targets:
  assumes "list_all css_name_char d'" and "cb \<in> set (mode_checkboxes d)" and "doc (cb_id cb) \<noteq> None"
  shows "filter (\<lambda>l. l_target l = cb_id cb)
           (case initializeControls other doc d' of Inl err \<Rightarrow> [] | Inr ls \<Rightarrow> ls)
         = (if d' = d then [\<lparr>l_target = cb_id cb, l_device = d\<rparr>] else [])"
proof -
  have "filter (\<lambda>l. l_target l = cb_id cb)
           (case initializeControls other doc d' of Inl err \<Rightarrow> [] | Inr ls \<Rightarrow> ls)
        = map (\<lambda>i. \<lparr>l_target = i, l_device = d'\<rparr>)
            (filter (\<lambda>i. doc i \<noteq> None \<and> i = cb_id cb)
               [''single-mode-'' @ d', ''ecl-delay-'' @ d', ''blr-mode-'' @ d', ''rc-mode-'' @ d'])"
    unfolding initializeControls_plain [OF assms(1)]
    by (simp only: sum.case filter_map filter_filter o_def listener.simps)
  also have "\<dots> = map (\<lambda>i. \<lparr>l_target = i, l_device = d'\<rparr>) (if d' = d then [cb_id cb] else [])"
    unfolding mode_ids_filter [where doc = doc and x = "cb_id cb" and d = d and d' = d',
        OF mode_checkbox_ids [OF assms(2)] assms(3)] ..
  also have "\<dots> = (if d' = d then [\<lparr>l_target = cb_id cb, l_device = d\<rparr>] else [])"
    by simp
  finally show ?thesis .
qed

lemma toggle_registered:
  assumes "distinct ds" and "d \<in> set ds" and "\<forall>d'\<in>set ds. list_all css_name_char d'"
    and "cb \<in> set (mode_checkboxes d)" and "doc (cb_id cb) \<noteq> None"
  shows "toggle_checkbox (registered_listeners other doc ds) (cb\<lparr>cb_checked := checked\<rparr>)
         = [mode_change_handler d (cb\<lparr>cb_checked := checked\<rparr>)]"
proof -
  have "filter (\<lambda>l. l_target l = cb_id cb) (registered_listeners other doc ds)
        = concat (map (\<lambda>d'. if d' = d then [\<lparr>l_target = cb_id cb, l_device = d\<rparr>] else []) ds)"
    unfolding registered_listeners_def filter_concat_map
    using assms(3) mode_targets [where cb = cb and d = d and doc = doc and other = other] assms(4,5)
    by (intro arg_cong [where f = concat] map_cong) auto
  also have "\<dots> = [\<lparr>l_target = cb_id cb, l_device = d\<rparr>]"
    using assms(1,2) by (rule singleton_once)
  finally show ?thesis
    by (simp add: toggle_checkbox_def)
qed

lemma initializeControls_device_path:
  "initializeControls other doc ''/dev/ttyUSB0'' = Inl SyntaxError"
proof -
  have "parse_id_list (mode_selector ''/dev/ttyUSB0'') = Invalid"
    by code_simp
  then show ?thesis
    by (simp add: initializeControls_def querySelectorAll_ids_def)
qed

text \<open>
  C3. On a page where the listeners were attached for devices whose ids are CSS names,
  toggling a mode checkbox of such a device sends exactly one command: the operation
  whose name is \<^verbatim>\<open>set_\<close> followed by the checkbox's \<^verbatim>\<open>data-mode\<close> attribute,
  with the single parameter \<^verbatim>\<open>enable\<close> equal to the state of the checkbox. For the
  four checkboxes, in the order single mode, ECL delay, BLR mode, RC mode, the
  operations are \<^verbatim>\<open>set_single_mode\<close>, \<^verbatim>\<open>set_ecl_delay\<close>,
  \<^verbatim>\<open>set_blr_mode\<close> and \<^verbatim>\<open>set_rc_mode\<close>.
\<close>

theorem mode_toggle_commands:
  assumes "distinct ds" and "d \<in> set ds" and "\<forall>d'\<in>set ds. list_all css_name_char d'"
    and "\<forall>cb\<in>set (mode_checkboxes d). doc (cb_id cb) \<noteq> None"
  shows "map (\<lambda>cb. toggle_checkbox (registered_listeners other doc ds) (cb\<lparr>cb_checked := checked\<rparr>))
           (mode_checkboxes d)
         = map (\<lambda>name. [\<lparr>req_device = d, req_command = name,
                          req_params = [(''enable'', JBool checked)]\<rparr>])
             [''set_single_mode'', ''set_ecl_delay'', ''set_blr_mode'', ''set_rc_mode'']"
proof -
  have "toggle_checkbox (registered_listeners other doc ds) (cb\<lparr>cb_checked := checked\<rparr>)
        = [mode_change_handler d (cb\<lparr>cb_checked := checked\<rparr>)]"
    if "cb \<in> set (mode_checkboxes d)" for cb
    using toggle_registered [where doc = doc and ds = ds and d = d and cb = cb and other = other
        and checked = checked] assms that by blast
  then have "map (\<lambda>cb. toggle_checkbox (registered_listeners other doc ds) (cb\<lparr>cb_checked := checked\<rparr>))
           (mode_checkboxes d)
        = map (\<lambda>cb. [mode_change_handler d (cb\<lparr>cb_checked := checked\<rparr>)]) (mode_checkboxes d)"
    by (intro map_cong) auto
  then show ?thesis
    by (simp add: mode_checkboxes_def mode_change_handler_def sendCommand_def)
qed

theorem mode_toggle_commands_witness:
  "map (\<lambda>cb. toggle_checkbox
          (registered_listeners (\<lambda>s. Inr [])
             (\<lambda>i. if i \<in> set (map cb_id (mode_checkboxes ''COM3''))
                   then Some \<lparr>el_value = ''on'', el_checked = False, el_text = ''''\<rparr> else None)
             [''COM3''])
          (cb\<lparr>cb_checked := True\<rparr>))
     (mode_checkboxes ''COM3'')
   = [[\<lparr>req_device = ''COM3'', req_command = ''set_single_mode'',
        req_params = [(''enable'', JBool True)]\<rparr>],
      [\<lparr>req_device = ''COM3'', req_command = ''set_ecl_delay'',
        req_params = [(''enable'', JBool True)]\<rparr>],
      [\<lparr>req_device = ''COM3'', req_command = ''set_blr_mode'',
        req_params = [(''enable'', JBool True)]\<rparr>],
      [\<lparr>req_device = ''COM3'', req_command = ''set_rc_mode'',
        req_params = [(''enable'', JBool True)]\<rparr>]]"
proof -
  let ?doc = "\<lambda>i. if i \<in> set (map cb_id (mode_checkboxes ''COM3''))
                   then Some \<lparr>el_value = ''on'', el_checked = False, el_text = ''''\<rparr> else None"
  have a: "distinct [''COM3'']" and b: "''COM3'' \<in> set [''COM3'']"
    by simp_all
  have c: "\<forall>d'\<in>set [''COM3'']. list_all css_name_char d'"
    by (simp add: css_name_char_def)
  have e: "\<forall>cb\<in>set (mode_checkboxes ''COM3''). ?doc (cb_id cb) \<noteq> None"
    by (simp add: mode_checkboxes_def)
  note th = mode_toggle_commands [where doc = ?doc and ds = "[''COM3'']" and d = "''COM3''"
        and other = "\<lambda>s. Inr []" and checked = True, OF a b c e]
  show ?thesis
    by (simp only: th list.map)
qed

text \<open>
  The single mode checkbox does not send the operation \<^verbatim>\<open>set_single_channel_mode\<close>
  of the specification's table: toggled to checked on device \<^verbatim>\<open>COM3\<close>, it sends
  \<^verbatim>\<open>set_single_mode\<close>.
\<close>

theorem mode_toggle_single_counterexample:
  "toggle_checkbox
     (registered_listeners (\<lambda>s. Inr [])
        (\<lambda>i. if i \<in> set (map cb_id (mode_checkboxes ''COM3''))
              then Some \<lparr>el_value = ''on'', el_checked = False, el_text = ''''\<rparr> else None)
        [''COM3''])
     ((mode_checkboxes ''COM3'' ! 0)\<lparr>cb_checked := True\<rparr>)
   \<noteq> [\<lparr>req_device = ''COM3'', req_command = spec_mode_operations ! 0,
        req_params = [(''enable'', JBool True)]\<rparr>]"
proof -
  let ?doc = "\<lambda>i. if i \<in> set (map cb_id (mode_checkboxes ''COM3''))
                   then Some \<lparr>el_value = ''on'', el_checked = False, el_text = ''''\<rparr> else None"
  let ?cb = "mode_checkboxes ''COM3'' ! 0"
  have a: "distinct [''COM3'']" and b: "''COM3'' \<in> set [''COM3'']"
    by simp_all
  have c: "\<forall>d'\<in>set [''COM3'']. list_all css_name_char d'"
    by (simp add: css_name_char_def)
  have m: "?cb \<in> set (mode_checkboxes ''COM3'')"
    by (simp add: mode_checkboxes_def)
  have e: "?doc (cb_id ?cb) \<noteq> None"
    using m by simp
  have "toggle_checkbox (registered_listeners (\<lambda>s. Inr []) ?doc [''COM3'']) (?cb\<lparr>cb_checked := True\<rparr>)
        = [mode_change_handler ''COM3'' (?cb\<lparr>cb_checked := True\<rparr>)]"
    using toggle_registered [where doc = ?doc and ds = "[''COM3'']" and d = "''COM3''" and cb = ?cb
        and other = "\<lambda>s. Inr []" and checked = True] a b c m e
    by blast
  then show ?thesis
    by (simp add: mode_checkboxes_def mode_change_handler_def sendCommand_def
        spec_mode_operations_def)
qed

text \<open>
  C6. With one of the options of the select chosen, \<^verbatim>\<open>setAutomaticPZ\<close> sends
  \<^verbatim>\<open>set_automatic_pz\<close> with the single parameter \<^verbatim>\<open>channel\<close>: null when the
  option is All (value 0), and the channel number 1 to 16 of the option otherwise.
\<close>

theorem setAutomaticPZ_command:
  assumes "doc (auto_pz_id deviceId) = Some select"
    and "el_value select \<in> set auto_pz_options"
  shows "\<exists>ch. 0 \<le> ch \<and> ch \<le> 16 \<and> el_value select = to_string (JInt ch)
           \<and> (ch = 0 \<longleftrightarrow> el_value select = ''0'')
           \<and> setAutomaticPZ doc deviceId =
               Inr \<lparr>req_device = deviceId, req_command = ''set_automatic_pz'',
                    req_params = [(''channel'', if ch = 0 then JNull else JInt ch)]\<rparr>"
proof -
  have "\<exists>ch. 0 \<le> ch \<and> ch \<le> 16 \<and> el_value select = to_string (JInt ch)"
  proof (cases "el_value select = ''0''")
    case True
    then show ?thesis
      by (intro exI [of _ 0]) (simp add: to_string_literals del: to_string.simps)
  next
    case False
    with assms(2) obtain x where "1 \<le> x" "x \<le> 16" "el_value select = to_string (JInt x)"
      by (auto simp: auto_pz_options_def simp del: to_string.simps)
    then show ?thesis by (intro exI [of _ x]) simp
  qed
  then obtain ch where ch: "0 \<le> ch" "ch \<le> 16" "el_value select = to_string (JInt ch)"
    by blast
  have z: "int_to_string 0 = ''0''"
    by code_simp
  have zero: "(ch = 0) = (el_value select = ''0'')"
    using to_string_JInt_inject [of ch 0] by (auto simp: ch(3) z)
  have "parseInt (el_value select) = JInt ch"
    by (simp add: ch(3) parseInt_int_to_string)
  then have "setAutomaticPZ doc deviceId =
      Inr \<lparr>req_device = deviceId, req_command = ''set_automatic_pz'',
           req_params = [(''channel'', if ch = 0 then JNull else JInt ch)]\<rparr>"
    using assms(1) by (simp add: setAutomaticPZ_def sendCommand_def)
  with ch zero show ?thesis by blast
qed

theorem setAutomaticPZ_command_witness:
  "setAutomaticPZ [''auto-pz-COM3'' \<mapsto> \<lparr>el_value = ''7'', el_checked = False, el_text = ''''\<rparr>] ''COM3''
     = Inr \<lparr>req_device = ''COM3'', req_command = ''set_automatic_pz'',
            req_params = [(''channel'', JInt 7)]\<rparr>
   \<and> setAutomaticPZ [''auto-pz-COM3'' \<mapsto> \<lparr>el_value = ''0'', el_checked = False, el_text = ''''\<rparr>] ''COM3''
     = Inr \<lparr>req_device = ''COM3'', req_command = ''set_automatic_pz'',
            req_params = [(''channel'', JNull)]\<rparr>"
proof -
  let ?e7 = "\<lparr>el_value = ''7'', el_checked = False, el_text = ''''\<rparr>"
  let ?e0 = "\<lparr>el_value = ''0'', el_checked = False, el_text = ''''\<rparr>"
  have i: "auto_pz_id ''COM3'' = ''auto-pz-COM3''"
    by (simp add: auto_pz_id_def)
  have m: "''7'' \<in> set auto_pz_options" "''0'' \<in> set auto_pz_options"
    by code_simp+
  have s: "to_string (JInt 7) = ''7''" "to_string (JInt 0) = ''0''"
    by code_simp+
  have d7: "[''auto-pz-COM3'' \<mapsto> ?e7] (auto_pz_id ''COM3'') = Some ?e7"
    by (simp add: i)
  have v7: "el_value ?e7 \<in> set auto_pz_options"
    using m(1) by simp
  from setAutomaticPZ_command [of "[''auto-pz-COM3'' \<mapsto> ?e7]" "''COM3''" ?e7, OF d7 v7] obtain ch where
    a: "el_value ?e7 = to_string (JInt ch)"
    "setAutomaticPZ [''auto-pz-COM3'' \<mapsto> ?e7] ''COM3'' =
       Inr \<lparr>req_device = ''COM3'', req_command = ''set_automatic_pz'',
            req_params = [(''channel'', if ch = 0 then JNull else JInt ch)]\<rparr>"
    by blast
  have "ch = 7"
    using to_string_JInt_inject [of ch 7] a(1) s(1) by (simp del: to_string.simps)
  with a(2) have first: "setAutomaticPZ [''auto-pz-COM3'' \<mapsto> ?e7] ''COM3'' =
       Inr \<lparr>req_device = ''COM3'', req_command = ''set_automatic_pz'',
            req_params = [(''channel'', JInt 7)]\<rparr>"
    by simp
  have d0: "[''auto-pz-COM3'' \<mapsto> ?e0] (auto_pz_id ''COM3'') = Some ?e0"
    by (simp add: i)
  have v0: "el_value ?e0 \<in> set auto_pz_options"
    using m(2) by simp
  from setAutomaticPZ_command [of "[''auto-pz-COM3'' \<mapsto> ?e0]" "''COM3''" ?e0, OF d0 v0] obtain ch0 where
    b: "ch0 = 0 \<longleftrightarrow> el_value ?e0 = ''0''"
    "setAutomaticPZ [''auto-pz-COM3'' \<mapsto> ?e0] ''COM3'' =
       Inr \<lparr>req_device = ''COM3'', req_command = ''set_automatic_pz'',
            req_params = [(''channel'', if ch0 = 0 then JNull else JInt ch0)]\<rparr>"
    by blast
  from b(1) have "ch0 = 0"
    by simp
  with b(2) have second: "setAutomaticPZ [''auto-pz-COM3'' \<mapsto> ?e0] ''COM3'' =
       Inr \<lparr>req_device = ''COM3'', req_command = ''set_automatic_pz'',
            req_params = [(''channel'', JNull)]\<rparr>"
    by simp
  from first second show ?thesis
    by (rule conjI)
qed

subsection \<open>Commands of the high-voltage client\<close>

text \<open>
  What the two change handlers send, for every option of their selects: the NTC handler
  sends \<^verbatim>\<open>set_temperature_compensation\<close> for its channel, with \<^verbatim>\<open>ntc_channel\<close>
  null exactly for the option Off (value 0) and otherwise the option's value minus one;
  the ramp speed handler sends \<^verbatim>\<open>set_ramp_speed\<close> with \<^verbatim>\<open>ramp_speed_index\<close> as
  its only parameter.
\<close>

lemma ntc_change_handler_options:
  assumes "ch \<in> set hv_channels"
    and "this_value \<in> set ntc_options"
  shows "\<exists>k. 0 \<le> k \<and> k \<le> 4 \<and> this_value = to_string (JInt k)
           \<and> (k = 0 \<longleftrightarrow> this_value = ''0'')
           \<and> (k \<noteq> 0 \<longrightarrow> 0 \<le> k - 1 \<and> k - 1 \<le> 3)
           \<and> ntc_change_handler deviceId ch this_value =
               \<lparr>req_device = deviceId, req_command = ''set_temperature_compensation'',
                req_params = [(''channel'', JInt ch),
                              (''ntc_channel'', if k = 0 then JNull else JInt (k - 1))]\<rparr>"
proof -
  from assms(2) consider "this_value = ''0''" | "this_value = ''1''" | "this_value = ''2''"
    | "this_value = ''3''" | "this_value = ''4''"
    by (auto simp: ntc_options_def)
  then show ?thesis
  proof cases
    case 1
    then show ?thesis
      by (intro exI [of _ 0])
        (simp add: ntc_change_handler_def sendCommand_def to_string_literals del: to_string.simps)
  next
    case 2
    then show ?thesis
      by (intro exI [of _ 1])
        (simp add: ntc_change_handler_def sendCommand_def to_string_literals parseInt_literals
          del: to_string.simps)
  next
    case 3
    then show ?thesis
      by (intro exI [of _ 2])
        (simp add: ntc_change_handler_def sendCommand_def to_string_literals parseInt_literals
          del: to_string.simps)
  next
    case 4
    then show ?thesis
      by (intro exI [of _ 3])
        (simp add: ntc_change_handler_def sendCommand_def to_string_literals parseInt_literals
          del: to_string.simps)
  next
    case 5
    then show ?thesis
      by (intro exI [of _ 4])
        (simp add: ntc_change_handler_def sendCommand_def to_string_literals parseInt_literals
          del: to_string.simps)
  qed
qed

lemma ramp_speed_change_handler_options:
  assumes "this_value \<in> set ramp_speed_options"
  shows "\<exists>i. 0 \<le> i \<and> i \<le> 3 \<and> this_value = to_string (JInt i)
           \<and> ramp_speed_change_handler deviceId this_value =
               \<lparr>req_device = deviceId, req_command = ''set_ramp_speed'',
                req_params = [(''ramp_speed_index'', JInt i)]\<rparr>
           \<and> ''channel'' \<notin> fst ` set (req_params (ramp_speed_change_handler deviceId this_value))"
proof -
  from assms consider "this_value = ''0''" | "this_value = ''1''" | "this_value = ''2''"
    | "this_value = ''3''"
    by (auto simp: ramp_speed_options_def)
  then show ?thesis
  proof cases
    case 1
    then show ?thesis
      by (intro exI [of _ 0])
        (simp add: ramp_speed_change_handler_def sendCommand_def to_string_literals
          parseInt_literals del: to_string.simps)
  next
    case 2
    then show ?thesis
      by (intro exI [of _ 1])
        (simp add: ramp_speed_change_handler_def sendCommand_def to_string_literals
          parseInt_literals del: to_string.simps)
  next
    case 3
    then show ?thesis
      by (intro exI [of _ 2])
        (simp add: ramp_speed_change_handler_def sendCommand_def to_string_literals
          parseInt_literals del: to_string.simps)
  next
    case 4
    then show ?thesis
      by (intro exI [of _ 3])
        (simp add: ramp_speed_change_handler_def sendCommand_def to_string_literals
          parseInt_literals del: to_string.simps)
  qed
qed

text \<open>
  For a device whose id is made of CSS name characters and whose panel is on the page,
  \<^verbatim>\<open>initializeChannelControls\<close> attaches the ramp speed listener and the four NTC
  listeners, and a change of one of these selects runs exactly its own handler.
\<close>

lemma ramp_selector_plain:
  assumes "list_all css_name_char d"
  shows "parse_id_list (''#ramp-speed-'' @ d) = Ids [''ramp-speed-'' @ d]"
proof -
  have p: "list_all css_name_char (''ramp-speed-'' @ d)"
    using assms by (simp add: css_name_char_def)
  have n: "''ramp-speed-'' @ d \<noteq> []"
    by simp
  have h: "css_name_start (hd (''ramp-speed-'' @ d))"
    by (simp add: css_name_start_def)
  have eq: "''#ramp-speed-'' @ d = CHR ''#'' # (''ramp-speed-'' @ d)"
    by simp
  show ?thesis
    unfolding eq by (rule parse_plain(1) [OF p n h])
qed

lemma query_in_panel_ramp:
  assumes "list_all css_name_char d"
  shows "query_in_panel other d (''#ramp-speed-'' @ d) = Inr (Some RampSpeedSelect)"
  unfolding query_in_panel_def ramp_selector_plain [OF assms]
  by (simp add: panel_ids_def)

lemma initializeChannelControls_plain:
  assumes "list_all css_name_char d" and "d \<in> set panels"
  shows "initializeChannelControls other_panel other_within panels d
         = Inr (\<lparr>hl_panel = d, hl_control = RampSpeedSelect, hl_handler = RampSpeedHandler d\<rparr>
                # map (\<lambda>ch. \<lparr>hl_panel = d, hl_control = NtcCombo ch,
                                hl_handler = NtcHandler d ch\<rparr>) [0..<4])"
proof -
  have q: "query_panel other_panel ''module-panel'' panels d = Inr (Some d)"
    using assms(2) by (simp add: query_panel_plain [OF assms(1)])
  show ?thesis
    unfolding initializeChannelControls_def q sum.case option.case
      query_in_panel_ramp [OF assms(1)]
    by simp
qed

lemma filter_eq_upt: "filter (\<lambda>x. x = ch) [0..<n] = (if ch < n then [ch] else [])"
  by (induction n) auto

lemma hv_targets_ntc:
  assumes "list_all css_name_char d'" and "d' \<in> set panels" and "ch < 4"
  shows "filter (\<lambda>l. hl_panel l = d \<and> hl_control l = NtcCombo ch)
           (case initializeChannelControls other_panel other_within panels d' of
              Inl err \<Rightarrow> [] | Inr ls \<Rightarrow> ls)
         = (if d' = d then [\<lparr>hl_panel = d, hl_control = NtcCombo ch,
                               hl_handler = NtcHandler d ch\<rparr>] else [])"
proof (cases "d' = d")
  case True
  have "filter (\<lambda>l. hl_panel l = d \<and> hl_control l = NtcCombo ch)
          (map (\<lambda>ch. \<lparr>hl_panel = d, hl_control = NtcCombo ch, hl_handler = NtcHandler d ch\<rparr>) [0..<4])
        = map (\<lambda>ch. \<lparr>hl_panel = d, hl_control = NtcCombo ch, hl_handler = NtcHandler d ch\<rparr>)
            (filter (\<lambda>x. x = ch) [0..<4])"
    by (simp only: filter_map o_def hv_listener.simps hv_control.inject simp_thms)
  also have "\<dots> = [\<lparr>hl_panel = d, hl_control = NtcCombo ch, hl_handler = NtcHandler d ch\<rparr>]"
    unfolding filter_eq_upt using assms(3) by simp
  finally show ?thesis
    using True assms(1,2) by (simp add: initializeChannelControls_plain del: upt_Suc)
next
  case False
  then show ?thesis
    using assms(1,2) by (simp add: initializeChannelControls_plain filter_empty_conv del: upt_Suc)
qed

lemma hv_targets_ramp:
  assumes "list_all css_name_char d'" and "d' \<in> set panels"
  shows "filter (\<lambda>l. hl_panel l = d \<and> hl_control l = RampSpeedSelect)
           (case initializeChannelControls other_panel other_within panels d' of
              Inl err \<Rightarrow> [] | Inr ls \<Rightarrow> ls)
         = (if d' = d then [\<lparr>hl_panel = d, hl_control = RampSpeedSelect,
                               hl_handler = RampSpeedHandler d\<rparr>] else [])"
  using assms by (simp add: initializeChannelControls_plain filter_empty_conv del: upt_Suc)

lemma change_ntc_registered:
  assumes "distinct ds" and "d \<in> set ds" and "\<forall>d'\<in>set ds. list_all css_name_char d' \<and> d' \<in> set panels"
    and "ch < 4"
  shows "change_select (registered_hv_listeners other_panel other_within panels ds) d (NtcCombo ch) v
         = [ntc_change_handler d (int ch) v]"
proof -
  have "filter (\<lambda>l. hl_panel l = d \<and> hl_control l = NtcCombo ch)
          (registered_hv_listeners other_panel other_within panels ds)
        = concat (map (\<lambda>d'. if d' = d then [\<lparr>hl_panel = d, hl_control = NtcCombo ch,
                                               hl_handler = NtcHandler d ch\<rparr>] else []) ds)"
    unfolding registered_hv_listeners_def filter_concat_map
    using assms(3) hv_targets_ntc [where d = d and ch = ch and panels = panels
        and other_panel = other_panel and other_within = other_within, OF _ _ assms(4)]
    by (intro arg_cong [where f = concat] map_cong) auto
  also have "\<dots> = [\<lparr>hl_panel = d, hl_control = NtcCombo ch, hl_handler = NtcHandler d ch\<rparr>]"
    using assms(1,2) by (rule singleton_once)
  finally show ?thesis
    by (simp add: change_select_def)
qed

lemma change_ramp_registered:
  assumes "distinct ds" and "d \<in> set ds" and "\<forall>d'\<in>set ds. list_all css_name_char d' \<and> d' \<in> set panels"
  shows "change_select (registered_hv_listeners other_panel other_within panels ds) d RampSpeedSelect v
         = [ramp_speed_change_handler d v]"
proof -
  have "filter (\<lambda>l. hl_panel l = d \<and> hl_control l = RampSpeedSelect)
          (registered_hv_listeners other_panel other_within panels ds)
        = concat (map (\<lambda>d'. if d' = d then [\<lparr>hl_panel = d, hl_control = RampSpeedSelect,
                                               hl_handler = RampSpeedHandler d\<rparr>] else []) ds)"
    unfolding registered_hv_listeners_def filter_concat_map
    using assms(3) hv_targets_ramp [where d = d and panels = panels
        and other_panel = other_panel and other_within = other_within]
    by (intro arg_cong [where f = concat] map_cong) auto
  also have "\<dots> = [\<lparr>hl_panel = d, hl_control = RampSpeedSelect, hl_handler = RampSpeedHandler d\<rparr>]"
    using assms(1,2) by (rule singleton_once)
  finally show ?thesis
    by (simp add: change_select_def)
qed

text \<open>
  A device on a Linux serial port has the port's path as its id. The text
  \<^verbatim>\<open>#ramp-speed-/dev/ttyUSB0\<close> is not a selector, so the call of
  \<^verbatim>\<open>initializeChannelControls\<close> that \<^verbatim>\<open>addModule\<close> makes for this device throws
  at the lookup of the ramp speed select, whatever the panels on the page.
\<close>

lemma ramp_selector_device_path: "parse_id_list ''#ramp-speed-/dev/ttyUSB0'' = Invalid"
  by code_simp

lemma initializeChannelControls_device_path:
  "''/dev/ttyUSB0'' \<in> set panels \<Longrightarrow>
   initializeChannelControls other_panel other_within panels ''/dev/ttyUSB0'' = Inl SyntaxError"
  by (simp add: initializeChannelControls_def query_panel_def css_string_plain_def
      query_in_panel_def ramp_selector_device_path)

text \<open>
  C7. On the page of the device \<^verbatim>\<open>/dev/ttyUSB0\<close>, with its panel written by
  \<^verbatim>\<open>addModule\<close>, \<^verbatim>\<open>initializeChannelControls\<close> throws a \<^verbatim>\<open>SyntaxError\<close> before
  the loop over the channels: no listener is attached to the NTC select of any channel,
  and choosing an option of it (here option 3 on channel 2) sends no command, where a
  device with the id \<^verbatim>\<open>COM4\<close> sends \<^verbatim>\<open>set_temperature_compensation\<close> with
  \<^verbatim>\<open>ntc_channel\<close> 2.
\<close>

theorem ntc_listener_missing:
  "initializeChannelControls other_panel other_within [''/dev/ttyUSB0''] ''/dev/ttyUSB0''
     = Inl SyntaxError
   \<and> change_select
       (registered_hv_listeners other_panel other_within [''/dev/ttyUSB0''] [''/dev/ttyUSB0''])
       ''/dev/ttyUSB0'' (NtcCombo 2) ''3'' = []
   \<and> change_select (registered_hv_listeners other_panel other_within [''COM4''] [''COM4''])
       ''COM4'' (NtcCombo 2) ''3''
     = [\<lparr>req_device = ''COM4'', req_command = ''set_temperature_compensation'',
         req_params = [(''channel'', JInt 2), (''ntc_channel'', JInt 2)]\<rparr>]"
proof -
  have t: "initializeChannelControls other_panel other_within [''/dev/ttyUSB0''] ''/dev/ttyUSB0''
           = Inl SyntaxError"
    by (rule initializeChannelControls_device_path) simp
  have n: "change_select
       (registered_hv_listeners other_panel other_within [''/dev/ttyUSB0''] [''/dev/ttyUSB0''])
       ''/dev/ttyUSB0'' (NtcCombo 2) ''3'' = []"
    by (simp add: registered_hv_listeners_def t change_select_def)
  have a: "distinct [''COM4'']" and b: "''COM4'' \<in> set [''COM4'']"
    by simp_all
  have c: "\<forall>d'\<in>set [''COM4'']. list_all css_name_char d' \<and> d' \<in> set [''COM4'']"
    by (simp add: css_name_char_def)
  have "change_select (registered_hv_listeners other_panel other_within [''COM4''] [''COM4''])
       ''COM4'' (NtcCombo 2) ''3'' = [ntc_change_handler ''COM4'' (int 2) ''3'']"
    using a b c by (rule change_ntc_registered) simp
  then have p: "change_select (registered_hv_listeners other_panel other_within [''COM4''] [''COM4''])
       ''COM4'' (NtcCombo 2) ''3''
     = [\<lparr>req_device = ''COM4'', req_command = ''set_temperature_compensation'',
         req_params = [(''channel'', JInt 2), (''ntc_channel'', JInt 2)]\<rparr>]"
    by (simp add: ntc_change_handler_def sendCommand_def parseInt_literals)
  from t n p show ?thesis
    by (intro conjI)
qed

text \<open>
  C8. On the same page \<^verbatim>\<open>initializeChannelControls\<close> throws at the lookup of the ramp
  speed select itself, before \<^verbatim>\<open>addEventListener\<close>: choosing an option of the ramp
  speed select of \<^verbatim>\<open>/dev/ttyUSB0\<close> (here option 2) sends no command, where a device
  with the id \<^verbatim>\<open>COM4\<close> sends \<^verbatim>\<open>set_ramp_speed\<close> with \<^verbatim>\<open>ramp_speed_index\<close> 2.
\<close>

theorem ramp_speed_listener_missing:
  "query_in_panel other_within ''/dev/ttyUSB0'' (''#ramp-speed-'' @ ''/dev/ttyUSB0'')
     = Inl SyntaxError
   \<and> change_select
       (registered_hv_listeners other_panel other_within [''/dev/ttyUSB0''] [''/dev/ttyUSB0''])
       ''/dev/ttyUSB0'' RampSpeedSelect ''2'' = []
   \<and> change_select (registered_hv_listeners other_panel other_within [''COM4''] [''COM4''])
       ''COM4'' RampSpeedSelect ''2''
     = [\<lparr>req_device = ''COM4'', req_command = ''set_ramp_speed'',
         req_params = [(''ramp_speed_index'', JInt 2)]\<rparr>]"
proof -
  have q: "query_in_panel other_within ''/dev/ttyUSB0'' (''#ramp-speed-'' @ ''/dev/ttyUSB0'')
           = Inl SyntaxError"
    by (simp add: query_in_panel_def ramp_selector_device_path)
  have t: "initializeChannelControls other_panel other_within [''/dev/ttyUSB0''] ''/dev/ttyUSB0''
           = Inl SyntaxError"
    by (rule initializeChannelControls_device_path) simp
  have n: "change_select
       (registered_hv_listeners other_panel other_within [''/dev/ttyUSB0''] [''/dev/ttyUSB0''])
       ''/dev/ttyUSB0'' RampSpeedSelect ''2'' = []"
    by (simp add: registered_hv_listeners_def t change_select_def)
  have a: "distinct [''COM4'']" and b: "''COM4'' \<in> set [''COM4'']"
    by simp_all
  have c: "\<forall>d'\<in>set [''COM4'']. list_all css_name_char d' \<and> d' \<in> set [''COM4'']"
    by (simp add: css_name_char_def)
  have "change_select (registered_hv_listeners other_panel other_within [''COM4''] [''COM4''])
       ''COM4'' RampSpeedSelect ''2'' = [ramp_speed_change_handler ''COM4'' ''2'']"
    using a b c by (rule change_ramp_registered)
  then have p: "change_select (registered_hv_listeners other_panel other_within [''COM4''] [''COM4''])
       ''COM4'' RampSpeedSelect ''2''
     = [\<lparr>req_device = ''COM4'', req_command = ''set_ramp_speed'',
         req_params = [(''ramp_speed_index'', JInt 2)]\<rparr>]"
    by (simp add: ramp_speed_change_handler_def sendCommand_def parseInt_literals)
  from q n p show ?thesis
    by (intro conjI)
qed

subsection \<open>Initial values of the pulse-shaping client\<close>

lemma set_if_present_other: "j \<noteq> i \<Longrightarrow> set_if_present doc i f j = doc j"
  by (simp add: set_if_present_def split: option.splits)

lemma changed_set_if_present: "changed_ids doc (set_if_present doc i f) \<subseteq> {i}"
proof
  fix x
  assume "x \<in> changed_ids doc (set_if_present doc i f)"
  then have "set_if_present doc i f x \<noteq> doc x"
    by (simp add: changed_ids_def)
  then have "x = i"
    using set_if_present_other [of x i doc f] by blast
  then show "x \<in> {i}" by simp
qed

lemma changed_set_if_present_twice:
  "changed_ids doc (set_if_present (set_if_present doc i f) j g) \<subseteq> {i, j}"
proof
  fix x
  assume "x \<in> changed_ids doc (set_if_present (set_if_present doc i f) j g)"
  then have "set_if_present (set_if_present doc i f) j g x \<noteq> doc x"
    by (simp add: changed_ids_def)
  then have "x = i \<or> x = j"
    using set_if_present_other [of x j "set_if_present doc i f" g]
      set_if_present_other [of x i doc f] by metis
  then show "x \<in> {i, j}" by blast
qed

lemma changed_fun_upd: "changed_ids doc (doc(i \<mapsto> e)) \<subseteq> {i}"
  by (auto simp: changed_ids_def)

lemma changed_same: "changed_ids doc doc = {}"
  by (simp add: changed_ids_def)

text \<open>An id that ends in a numeral never equals the id of the common field.\<close>

lemma digit_char_not_c: "d < 10 \<Longrightarrow> digit_char d \<noteq> CHR ''c''"
  by (drule lt10_cases) (auto simp: digit_char_simps)

lemma int_to_string_no_c: "CHR ''c'' \<notin> set (int_to_string i)"
proof -
  have "CHR ''c'' \<notin> set (nat_digits n)" for n
  proof
    assume c: "CHR ''c'' \<in> set (nat_digits n)"
    obtain d cs where h: "d < 10" "nat_digits n = digit_char d # cs"
      "\<forall>c\<in>set cs. \<exists>e<10. c = digit_char e"
      using nat_digits_shape by blast
    from c h(2) have "CHR ''c'' = digit_char d \<or> CHR ''c'' \<in> set cs"
      by auto
    then obtain e where "e < 10" "CHR ''c'' = digit_char e"
      using h(1) h(3) by blast
    then show False
      using digit_char_not_c [of e] by simp
  qed
  then show ?thesis by (simp add: int_to_string_def)
qed

lemma member_id_not_common: "d @ ''-'' @ int_to_string i \<noteq> ''common-'' @ d"
proof
  assume "d @ ''-'' @ int_to_string i = ''common-'' @ d"
  then have "count_list (d @ ''-'' @ int_to_string i) (CHR ''c'')
             = count_list (''common-'' @ d) (CHR ''c'')"
    by simp
  then have "count_list (int_to_string i) (CHR ''c'') = 1"
    by simp
  then have "CHR ''c'' \<in> set (int_to_string i)"
    using count_list_0_iff [of "int_to_string i" "CHR ''c''"] by simp
  then show False by (simp add: int_to_string_no_c)
qed

lemma member_ids_distinct:
  "thresh_id deviceId (JInt i) \<noteq> thresh_common_id deviceId"
  "pz_id deviceId (JInt i) \<noteq> pz_common_id deviceId"
  "shaping_id deviceId (JInt i) \<noteq> shaping_common_id deviceId"
  "gain_id deviceId (JInt i) \<noteq> gain_common_id deviceId"
  using member_id_not_common [of deviceId i]
  by (simp_all add: thresh_id_def thresh_common_id_def pz_id_def pz_common_id_def
      shaping_id_def shaping_common_id_def gain_id_def gain_common_id_def)

lemma set_if_present_same: "set_if_present doc i f i = map_option f (doc i)"
  by (simp add: set_if_present_def split: option.splits)

lemma mult_ids_differ: "''mult-hi-'' @ d \<noteq> ''mult-lo-'' @ d"
  by simp

text \<open>
  The \<^verbatim>\<open>switch\<close> writes every field the event names, with the value the event
  gives for it, and leaves every other element and the panels as they are.
\<close>

lemma initial_values_switch_tabs:
  "initial_values_switch assign pg deviceId data = Inr pg' \<Longrightarrow> device_tabs pg' = device_tabs pg"
  unfolding initial_values_switch_def Let_def
  by (auto split: if_splits option.splits)

lemma initial_values_switch_writes:
  assumes "initial_values_switch assign pg deviceId data = Inr pg'"
    and "(i, p, v) \<in> set (named_writes deviceId data)"
  shows "elements pg' i = map_option (assign p v) (elements pg i)"
  using assms unfolding initial_values_switch_def named_writes_def Let_def
  by (auto split: if_splits option.splits
      simp: set_if_present_same set_if_present_other mult_ids_differ)

lemma initial_values_switch_frame:
  assumes "initial_values_switch assign pg deviceId data = Inr pg'"
    and "i \<notin> fst ` set (named_writes deviceId data)"
  shows "elements pg' i = elements pg i"
  using assms unfolding initial_values_switch_def named_writes_def Let_def
  by (auto split: if_splits option.splits simp: set_if_present_other)

lemma initial_values_switch_no_case:
  "ev_type data \<notin> set case_labels \<Longrightarrow> initial_values_switch assign pg deviceId data = Inr pg"
  unfolding initial_values_switch_def case_labels_def Let_def
  by simp

lemma named_writes_no_case:
  "ev_type data \<notin> set case_labels \<Longrightarrow> named_writes deviceId data = []"
  unfolding named_writes_def case_labels_def Let_def
  by simp

lemma named_writes_length:
  "ev_type data \<in> set case_labels \<Longrightarrow> ev_type data \<noteq> ''multiplicity'' \<Longrightarrow>
   length (named_writes deviceId data) = 1"
  unfolding named_writes_def case_labels_def Let_def
  by auto

text \<open>
  The handler returns unless the selector is refused or the \<^verbatim>\<open>version\<close> element is
  missing from a page that has the panel.
\<close>

lemma updateInitialValues_returns:
  assumes "query_panel other ''device-tab'' (device_tabs pg) deviceId = Inr r"
    and "ev_type data = ''version'' \<Longrightarrow> r \<noteq> None \<Longrightarrow> elements pg (''version-'' @ deviceId) \<noteq> None"
  shows "\<exists>pg'. updateInitialValues other assign pg deviceId data = Inr pg'"
proof (cases r)
  case None
  then show ?thesis
    using assms(1) by (simp add: updateInitialValues_def)
next
  case (Some m)
  have "\<exists>pg'. initial_values_switch assign pg deviceId data = Inr pg'"
    using assms(2) Some unfolding initial_values_switch_def Let_def
    by (auto split: option.splits)
  then show ?thesis
    using assms(1) Some by (simp add: updateInitialValues_def)
qed

text \<open>
  C4. An \<^verbatim>\<open>initial_values\<close> event that the handler has processed leaves the panels
  of the page as they are. When the lookup of the device's panel finds none, the page is
  unchanged. When it finds the panel, every field that the event's type names holds the
  event's value for it afterwards (as the browser assigns it), and every other element is
  unchanged. The type alone selects the fields: \<^verbatim>\<open>threshold\<close> names the input of the
  event's channel and \<^verbatim>\<open>threshold_common\<close> the common input, and likewise for
  \<^verbatim>\<open>pz\<close>, \<^verbatim>\<open>shaping_time\<close> and \<^verbatim>\<open>gain\<close>; every type with a case names
  exactly one field, except \<^verbatim>\<open>multiplicity\<close>, which names the two inputs
  \<^verbatim>\<open>mult-hi\<close> (for \<^verbatim>\<open>data.hi\<close>) and \<^verbatim>\<open>mult-lo\<close> (for \<^verbatim>\<open>data.lo\<close>); a
  type without a case names none and the page is unchanged. The field of a numbered
  channel or group is never the common field.
\<close>

theorem updateInitialValues_fields:
  assumes "updateInitialValues other assign pg deviceId data = Inr pg'"
  shows "device_tabs pg' = device_tabs pg
     \<and> (query_panel other ''device-tab'' (device_tabs pg) deviceId = Inr None \<longrightarrow> pg' = pg)
     \<and> (query_panel other ''device-tab'' (device_tabs pg) deviceId \<noteq> Inr None \<longrightarrow>
          (\<forall>(i, p, v) \<in> set (named_writes deviceId data).
              elements pg' i = map_option (assign p v) (elements pg i))
          \<and> (\<forall>i. i \<notin> fst ` set (named_writes deviceId data) \<longrightarrow> elements pg' i = elements pg i))
     \<and> (ev_type data = ''threshold'' \<longrightarrow>
          named_writes deviceId data = [(thresh_id deviceId (ev_channel data), Value, ev_value data)])
     \<and> (ev_type data = ''threshold_common'' \<longrightarrow>
          named_writes deviceId data = [(thresh_common_id deviceId, Value, ev_value data)])
     \<and> (ev_type data = ''pz'' \<longrightarrow>
          named_writes deviceId data = [(pz_id deviceId (ev_channel data), Value, ev_value data)])
     \<and> (ev_type data = ''pz_common'' \<longrightarrow>
          named_writes deviceId data = [(pz_common_id deviceId, Value, ev_value data)])
     \<and> (ev_type data = ''shaping_time'' \<longrightarrow>
          named_writes deviceId data = [(shaping_id deviceId (ev_group data), Value, ev_value data)])
     \<and> (ev_type data = ''shaping_time_common'' \<longrightarrow>
          named_writes deviceId data = [(shaping_common_id deviceId, Value, ev_value data)])
     \<and> (ev_type data = ''gain'' \<longrightarrow>
          named_writes deviceId data = [(gain_id deviceId (ev_group data), Value, ev_value data)])
     \<and> (ev_type data = ''gain_common'' \<longrightarrow>
          named_writes deviceId data = [(gain_common_id deviceId, Value, ev_value data)])
     \<and> (ev_type data = ''multiplicity'' \<longrightarrow>
          named_writes deviceId data = [(''mult-hi-'' @ deviceId, Value, ev_hi data),
                                        (''mult-lo-'' @ deviceId, Value, ev_lo data)])
     \<and> (ev_type data \<in> set case_labels \<and> ev_type data \<noteq> ''multiplicity'' \<longrightarrow>
          length (named_writes deviceId data) = 1)
     \<and> (ev_type data \<notin> set case_labels \<longrightarrow> named_writes deviceId data = [] \<and> pg' = pg)
     \<and> (\<forall>i. thresh_id deviceId (JInt i) \<noteq> thresh_common_id deviceId
            \<and> pz_id deviceId (JInt i) \<noteq> pz_common_id deviceId
            \<and> shaping_id deviceId (JInt i) \<noteq> shaping_common_id deviceId
            \<and> gain_id deviceId (JInt i) \<noteq> gain_common_id deviceId)"
proof -
  let ?q = "query_panel other ''device-tab'' (device_tabs pg) deviceId"
  have sw: "initial_values_switch assign pg deviceId data = Inr pg'" if found: "?q \<noteq> Inr None"
  proof (cases ?q)
    case (Inl err)
    then show ?thesis
      using assms by (simp add: updateInitialValues_def)
  next
    case (Inr r)
    then obtain m where "r = Some m"
      using found by (cases r) auto
    then show ?thesis
      using assms Inr by (simp add: updateInitialValues_def)
  qed
  have nop: "?q = Inr None \<longrightarrow> pg' = pg"
    using assms by (auto simp: updateInitialValues_def)
  have tabs: "device_tabs pg' = device_tabs pg"
  proof (cases "?q = Inr None")
    case True
    then show ?thesis using nop by simp
  next
    case False
    then show ?thesis using sw initial_values_switch_tabs by blast
  qed
  have wr: "?q \<noteq> Inr None \<longrightarrow>
          (\<forall>(i, p, v) \<in> set (named_writes deviceId data).
              elements pg' i = map_option (assign p v) (elements pg i))
          \<and> (\<forall>i. i \<notin> fst ` set (named_writes deviceId data) \<longrightarrow> elements pg' i = elements pg i)"
  proof (intro impI conjI)
    assume q: "?q \<noteq> Inr None"
    show "\<forall>(i, p, v) \<in> set (named_writes deviceId data).
              elements pg' i = map_option (assign p v) (elements pg i)"
      using initial_values_switch_writes [OF sw [OF q]] by blast
    show "\<forall>i. i \<notin> fst ` set (named_writes deviceId data) \<longrightarrow> elements pg' i = elements pg i"
      using initial_values_switch_frame [OF sw [OF q]] by blast
  qed
  have t1: "ev_type data = ''threshold'' \<longrightarrow>
      named_writes deviceId data = [(thresh_id deviceId (ev_channel data), Value, ev_value data)]"
    by (simp add: named_writes_def Let_def)
  have t2: "ev_type data = ''threshold_common'' \<longrightarrow>
      named_writes deviceId data = [(thresh_common_id deviceId, Value, ev_value data)]"
    by (simp add: named_writes_def Let_def)
  have p1: "ev_type data = ''pz'' \<longrightarrow>
      named_writes deviceId data = [(pz_id deviceId (ev_channel data), Value, ev_value data)]"
    by (simp add: named_writes_def Let_def)
  have p2: "ev_type data = ''pz_common'' \<longrightarrow>
      named_writes deviceId data = [(pz_common_id deviceId, Value, ev_value data)]"
    by (simp add: named_writes_def Let_def)
  have s1: "ev_type data = ''shaping_time'' \<longrightarrow>
      named_writes deviceId data = [(shaping_id deviceId (ev_group data), Value, ev_value data)]"
    by (simp add: named_writes_def Let_def)
  have s2: "ev_type data = ''shaping_time_common'' \<longrightarrow>
      named_writes deviceId data = [(shaping_common_id deviceId, Value, ev_value data)]"
    by (simp add: named_writes_def Let_def)
  have g1: "ev_type data = ''gain'' \<longrightarrow>
      named_writes deviceId data = [(gain_id deviceId (ev_group data), Value, ev_value data)]"
    by (simp add: named_writes_def Let_def)
  have g2: "ev_type data = ''gain_common'' \<longrightarrow>
      named_writes deviceId data = [(gain_common_id deviceId, Value, ev_value data)]"
    by (simp add: named_writes_def Let_def)
  have m: "ev_type data = ''multiplicity'' \<longrightarrow>
      named_writes deviceId data = [(''mult-hi-'' @ deviceId, Value, ev_hi data),
                                    (''mult-lo-'' @ deviceId, Value, ev_lo data)]"
    by (simp add: named_writes_def Let_def)
  have len: "ev_type data \<in> set case_labels \<and> ev_type data \<noteq> ''multiplicity'' \<longrightarrow>
      length (named_writes deviceId data) = 1"
    using named_writes_length by blast
  have none: "ev_type data \<notin> set case_labels \<longrightarrow> named_writes deviceId data = [] \<and> pg' = pg"
  proof (intro impI conjI)
    assume n: "ev_type data \<notin> set case_labels"
    show "named_writes deviceId data = []"
      using n by (rule named_writes_no_case)
    show "pg' = pg"
    proof (cases "?q = Inr None")
      case True
      then show ?thesis using nop by simp
    next
      case False
      then show ?thesis
        using sw initial_values_switch_no_case [OF n, of assign pg deviceId] by simp
    qed
  qed
  have dist: "\<forall>i. thresh_id deviceId (JInt i) \<noteq> thresh_common_id deviceId
            \<and> pz_id deviceId (JInt i) \<noteq> pz_common_id deviceId
            \<and> shaping_id deviceId (JInt i) \<noteq> shaping_common_id deviceId
            \<and> gain_id deviceId (JInt i) \<noteq> gain_common_id deviceId"
    using member_ids_distinct by blast
  from tabs nop wr t1 t2 p1 p2 s1 s2 g1 g2 m len none dist show ?thesis
    by (intro conjI)
qed

theorem updateInitialValues_fields_witness:
  "updateInitialValues (\<lambda>s. Inr None) assign_plain
     \<lparr>device_tabs = [''COM3''],
      elements = [''thresh-COM3-5'' \<mapsto> \<lparr>el_value = ''128'', el_checked = False, el_text = ''''\<rparr>,
                  ''thresh-common-COM3'' \<mapsto> \<lparr>el_value = ''128'', el_checked = False, el_text = ''''\<rparr>]\<rparr>
     ''COM3''
     \<lparr>ev_type = ''threshold'', ev_channel = JInt 5, ev_group = JUndefined, ev_value = JInt 77,
      ev_hi = JUndefined, ev_lo = JUndefined\<rparr>
   = Inr \<lparr>device_tabs = [''COM3''],
          elements = [''thresh-COM3-5'' \<mapsto> \<lparr>el_value = ''77'', el_checked = False, el_text = ''''\<rparr>,
                      ''thresh-common-COM3'' \<mapsto> \<lparr>el_value = ''128'', el_checked = False, el_text = ''''\<rparr>]\<rparr>
   \<and> named_writes ''COM3''
        \<lparr>ev_type = ''threshold'', ev_channel = JInt 5, ev_group = JUndefined, ev_value = JInt 77,
         ev_hi = JUndefined, ev_lo = JUndefined\<rparr>
      = [(''thresh-COM3-5'', Value, JInt 77)]"
proof -
  let ?e = "\<lparr>el_value = ''128'', el_checked = False, el_text = ''''\<rparr>"
  let ?e' = "\<lparr>el_value = ''77'', el_checked = False, el_text = ''''\<rparr>"
  let ?pg = "\<lparr>device_tabs = [''COM3''],
              elements = [''thresh-COM3-5'' \<mapsto> ?e, ''thresh-common-COM3'' \<mapsto> ?e]\<rparr>"
  let ?pg' = "\<lparr>device_tabs = [''COM3''],
               elements = [''thresh-COM3-5'' \<mapsto> ?e', ''thresh-common-COM3'' \<mapsto> ?e]\<rparr>"
  let ?ev = "\<lparr>ev_type = ''threshold'', ev_channel = JInt 5, ev_group = JUndefined,
              ev_value = JInt 77, ev_hi = JUndefined, ev_lo = JUndefined\<rparr>"
  have i: "thresh_id ''COM3'' (JInt 5) = ''thresh-COM3-5''"
    by code_simp
  have s: "to_string (JInt 77) = ''77''"
    by code_simp
  have q: "query_panel (\<lambda>s. Inr None) ''device-tab'' [''COM3''] ''COM3'' = Inr (Some ''COM3'')"
    by (simp add: query_panel_def css_string_plain_def)
  have r: "updateInitialValues (\<lambda>s. Inr None) assign_plain ?pg ''COM3'' ?ev = Inr ?pg'"
    unfolding updateInitialValues_def initial_values_switch_def Let_def
    by (simp add: q i s set_if_present_def fun_upd_twist del: to_string.simps)
  have "ev_type ?ev = ''threshold'' \<longrightarrow>
        named_writes ''COM3'' ?ev = [(thresh_id ''COM3'' (ev_channel ?ev), Value, ev_value ?ev)]"
    using updateInitialValues_fields [OF r] by blast
  then have "named_writes ''COM3'' ?ev = [(''thresh-COM3-5'', Value, JInt 77)]"
    by (simp add: i del: to_string.simps)
  with r show ?thesis by simp
qed

text \<open>
  One event can change two fields: a \<^verbatim>\<open>multiplicity\<close> event with \<^verbatim>\<open>hi = 7\<close>
  and \<^verbatim>\<open>lo = 3\<close> changes both \<^verbatim>\<open>mult-hi-COM3\<close> and \<^verbatim>\<open>mult-lo-COM3\<close>.
  And an event can change no field although the input it names is on the page: without a
  \<^verbatim>\<open>.device-tab\<close> panel of \<^verbatim>\<open>COM3\<close> the handler returns before the
  \<^verbatim>\<open>switch\<close>, and a \<^verbatim>\<open>threshold\<close> event for channel 5 leaves the input
  \<^verbatim>\<open>thresh-COM3-5\<close> at its value.
\<close>

theorem updateInitialValues_counterexample:
  "(case updateInitialValues (\<lambda>s. Inr None) assign_plain
      \<lparr>device_tabs = [''COM3''],
       elements = [''mult-hi-COM3'' \<mapsto> \<lparr>el_value = ''5'', el_checked = False, el_text = ''''\<rparr>,
                   ''mult-lo-COM3'' \<mapsto> \<lparr>el_value = ''2'', el_checked = False, el_text = ''''\<rparr>]\<rparr>
      ''COM3''
      \<lparr>ev_type = ''multiplicity'', ev_channel = JUndefined, ev_group = JUndefined,
       ev_value = JUndefined, ev_hi = JInt 7, ev_lo = JInt 3\<rparr> of
      Inl err \<Rightarrow> False
    | Inr pg' \<Rightarrow>
        elements pg' ''mult-hi-COM3'' = Some \<lparr>el_value = ''7'', el_checked = False, el_text = ''''\<rparr>
        \<and> elements pg' ''mult-lo-COM3'' = Some \<lparr>el_value = ''3'', el_checked = False, el_text = ''''\<rparr>
        \<and> {''mult-hi-COM3'', ''mult-lo-COM3''}
            \<subseteq> changed_ids
                [''mult-hi-COM3'' \<mapsto> \<lparr>el_value = ''5'', el_checked = False, el_text = ''''\<rparr>,
                 ''mult-lo-COM3'' \<mapsto> \<lparr>el_value = ''2'', el_checked = False, el_text = ''''\<rparr>]
                (elements pg'))
   \<and> updateInitialValues (\<lambda>s. Inr None) assign_plain
       \<lparr>device_tabs = [],
        elements = [''thresh-COM3-5'' \<mapsto> \<lparr>el_value = ''128'', el_checked = False, el_text = ''''\<rparr>]\<rparr>
       ''COM3''
       \<lparr>ev_type = ''threshold'', ev_channel = JInt 5, ev_group = JUndefined, ev_value = JInt 77,
        ev_hi = JUndefined, ev_lo = JUndefined\<rparr>
     = Inr \<lparr>device_tabs = [],
            elements = [''thresh-COM3-5'' \<mapsto> \<lparr>el_value = ''128'', el_checked = False, el_text = ''''\<rparr>]\<rparr>"
proof -
  have s: "to_string (JInt 7) = ''7''" "to_string (JInt 3) = ''3''"
    by code_simp+
  have q: "query_panel (\<lambda>s. Inr None) ''device-tab'' [''COM3''] ''COM3'' = Inr (Some ''COM3'')"
    by (simp add: query_panel_def css_string_plain_def)
  have n: "query_panel (\<lambda>s. Inr None) ''device-tab'' [] ''COM3'' = Inr None"
    by (simp add: query_panel_def css_string_plain_def)
  have two: "(case updateInitialValues (\<lambda>s. Inr None) assign_plain
      \<lparr>device_tabs = [''COM3''],
       elements = [''mult-hi-COM3'' \<mapsto> \<lparr>el_value = ''5'', el_checked = False, el_text = ''''\<rparr>,
                   ''mult-lo-COM3'' \<mapsto> \<lparr>el_value = ''2'', el_checked = False, el_text = ''''\<rparr>]\<rparr>
      ''COM3''
      \<lparr>ev_type = ''multiplicity'', ev_channel = JUndefined, ev_group = JUndefined,
       ev_value = JUndefined, ev_hi = JInt 7, ev_lo = JInt 3\<rparr> of
      Inl err \<Rightarrow> False
    | Inr pg' \<Rightarrow>
        elements pg' ''mult-hi-COM3'' = Some \<lparr>el_value = ''7'', el_checked = False, el_text = ''''\<rparr>
        \<and> elements pg' ''mult-lo-COM3'' = Some \<lparr>el_value = ''3'', el_checked = False, el_text = ''''\<rparr>
        \<and> {''mult-hi-COM3'', ''mult-lo-COM3''}
            \<subseteq> changed_ids
                [''mult-hi-COM3'' \<mapsto> \<lparr>el_value = ''5'', el_checked = False, el_text = ''''\<rparr>,
                 ''mult-lo-COM3'' \<mapsto> \<lparr>el_value = ''2'', el_checked = False, el_text = ''''\<rparr>]
                (elements pg'))"
    unfolding updateInitialValues_def initial_values_switch_def Let_def
    by (simp add: q s set_if_present_def changed_ids_def del: to_string.simps)
  have none: "updateInitialValues (\<lambda>s. Inr None) assign_plain
       \<lparr>device_tabs = [],
        elements = [''thresh-COM3-5'' \<mapsto> \<lparr>el_value = ''128'', el_checked = False, el_text = ''''\<rparr>]\<rparr>
       ''COM3''
       \<lparr>ev_type = ''threshold'', ev_channel = JInt 5, ev_group = JUndefined, ev_value = JInt 77,
        ev_hi = JUndefined, ev_lo = JUndefined\<rparr>
     = Inr \<lparr>device_tabs = [],
            elements = [''thresh-COM3-5'' \<mapsto> \<lparr>el_value = ''128'', el_checked = False, el_text = ''''\<rparr>]\<rparr>"
    unfolding updateInitialValues_def
    by (simp add: n)
  from two none show ?thesis
    by (intro conjI)
qed

subsection \<open>Readings of the high-voltage client\<close>

lemma digit_char_inject: "a < 10 \<Longrightarrow> b < 10 \<Longrightarrow> digit_char a = digit_char b \<Longrightarrow> a = b"
  by (metis digit_val_digit_char option.inject)

lemma display_ids_distinct:
  assumes "a < 4" and "b < 4"
  shows "voltage_id deviceId a = voltage_id deviceId b \<longleftrightarrow> a = b"
    and "current_id deviceId a = current_id deviceId b \<longleftrightarrow> a = b"
    and "voltage_id deviceId a \<noteq> current_id deviceId b"
  using assms digit_char_inject [of a b]
  by (auto simp: voltage_id_def current_id_def nat_digits_lt10)

lemma show_reading_numeric:
  "numeric reading \<Longrightarrow> show_reading big doc reading i f = Inr (doc(i := shown big doc i reading f))"
  by (auto simp: numeric_def show_reading_def shown_def split: option.splits json.splits)

lemma readings_body_numeric:
  assumes "numeric (readings (voltage_key ch))" and "numeric (readings (current_key ch))"
    and "voltage_id deviceId ch \<noteq> current_id deviceId ch"
  shows "readings_body big deviceId readings ch doc =
     Inr (doc(voltage_id deviceId ch := shown big doc (voltage_id deviceId ch) (readings (voltage_key ch)) 1,
              current_id deviceId ch := shown big doc (current_id deviceId ch) (readings (current_key ch)) 3))"
proof -
  let ?doc1 = "doc(voltage_id deviceId ch :=
                 shown big doc (voltage_id deviceId ch) (readings (voltage_key ch)) 1)"
  have "shown big ?doc1 (current_id deviceId ch) (readings (current_key ch)) 3
        = shown big doc (current_id deviceId ch) (readings (current_key ch)) 3"
    using assms(3) by (simp add: shown_def)
  then show ?thesis
    unfolding readings_body_def Let_def
    by (simp add: show_reading_numeric [OF assms(1)] show_reading_numeric [OF assms(2)])
qed

lemma readings_loop_numeric:
  assumes "\<forall>c. ch \<le> c \<and> c < 4 \<longrightarrow> numeric (readings (voltage_key c)) \<and> numeric (readings (current_key c))"
  shows "\<exists>doc'. readings_loop big deviceId readings ch doc = Inr doc'
     \<and> (\<forall>c. ch \<le> c \<and> c < 4 \<longrightarrow>
           doc' (voltage_id deviceId c) = shown big doc (voltage_id deviceId c) (readings (voltage_key c)) 1
         \<and> doc' (current_id deviceId c) = shown big doc (current_id deviceId c) (readings (current_key c)) 3)
     \<and> (\<forall>i. (\<forall>c. ch \<le> c \<and> c < 4 \<longrightarrow> i \<noteq> voltage_id deviceId c \<and> i \<noteq> current_id deviceId c)
           \<longrightarrow> doc' i = doc i)"
  using assms
proof (induction big deviceId readings ch doc rule: readings_loop.induct)
  case (1 big deviceId readings ch doc)
  show ?case
  proof (cases "ch < 4")
    case False
    then show ?thesis
      by (subst readings_loop.simps) auto
  next
    case True
    let ?v = "voltage_id deviceId ch" and ?c = "current_id deviceId ch"
    let ?doc2 = "doc(?v := shown big doc ?v (readings (voltage_key ch)) 1,
                     ?c := shown big doc ?c (readings (current_key ch)) 3)"
    have vc: "?v \<noteq> ?c"
      using True display_ids_distinct(3) by blast
    have body: "readings_body big deviceId readings ch doc = Inr ?doc2"
      using "1.prems" True vc by (intro readings_body_numeric) auto
    have "\<forall>c. ch + 1 \<le> c \<and> c < 4 \<longrightarrow>
            numeric (readings (voltage_key c)) \<and> numeric (readings (current_key c))"
      using "1.prems" by auto
    from "1.IH" [OF True body this] obtain doc' where
      r: "readings_loop big deviceId readings (ch + 1) ?doc2 = Inr doc'"
      and s: "\<forall>c. ch + 1 \<le> c \<and> c < 4 \<longrightarrow>
           doc' (voltage_id deviceId c) = shown big ?doc2 (voltage_id deviceId c) (readings (voltage_key c)) 1
         \<and> doc' (current_id deviceId c) = shown big ?doc2 (current_id deviceId c) (readings (current_key c)) 3"
      and f: "\<forall>i. (\<forall>c. ch + 1 \<le> c \<and> c < 4 \<longrightarrow> i \<noteq> voltage_id deviceId c \<and> i \<noteq> current_id deviceId c)
           \<longrightarrow> doc' i = ?doc2 i"
      by blast
    have loop: "readings_loop big deviceId readings ch doc = Inr doc'"
      using True body r by (subst readings_loop.simps) simp
    have other: "?doc2 (voltage_id deviceId c) = doc (voltage_id deviceId c)
               \<and> ?doc2 (current_id deviceId c) = doc (current_id deviceId c)"
      if "ch + 1 \<le> c" "c < 4" for c
      using that True display_ids_distinct [of c ch deviceId] display_ids_distinct [of ch c deviceId]
      by auto
    have later: "doc' (voltage_id deviceId c) = shown big doc (voltage_id deviceId c) (readings (voltage_key c)) 1
         \<and> doc' (current_id deviceId c) = shown big doc (current_id deviceId c) (readings (current_key c)) 3"
      if "ch + 1 \<le> c" "c < 4" for c
      using s that other [OF that] by (simp add: shown_def)
    have here: "doc' ?v = shown big doc ?v (readings (voltage_key ch)) 1
              \<and> doc' ?c = shown big doc ?c (readings (current_key ch)) 3"
    proof -
      have "\<forall>c. ch + 1 \<le> c \<and> c < 4 \<longrightarrow> ?v \<noteq> voltage_id deviceId c \<and> ?v \<noteq> current_id deviceId c"
        using True display_ids_distinct [of ch _ deviceId] by auto
      moreover have "\<forall>c. ch + 1 \<le> c \<and> c < 4 \<longrightarrow> ?c \<noteq> voltage_id deviceId c \<and> ?c \<noteq> current_id deviceId c"
      proof (intro allI impI)
        fix c
        assume c: "ch + 1 \<le> c \<and> c < 4"
        then have "c < 4" "c \<noteq> ch"
          by auto
        then show "?c \<noteq> voltage_id deviceId c \<and> ?c \<noteq> current_id deviceId c"
          using True display_ids_distinct(3) [of c ch deviceId]
            display_ids_distinct(2) [of ch c deviceId]
          by auto
      qed
      ultimately have "doc' ?v = ?doc2 ?v" "doc' ?c = ?doc2 ?c"
        using f by blast+
      then show ?thesis using vc by simp
    qed
    have all: "\<forall>c. ch \<le> c \<and> c < 4 \<longrightarrow>
           doc' (voltage_id deviceId c) = shown big doc (voltage_id deviceId c) (readings (voltage_key c)) 1
         \<and> doc' (current_id deviceId c) = shown big doc (current_id deviceId c) (readings (current_key c)) 3"
    proof (intro allI impI)
      fix c
      assume "ch \<le> c \<and> c < 4"
      then consider "c = ch" | "ch + 1 \<le> c" "c < 4"
        by linarith
      then show "doc' (voltage_id deviceId c) = shown big doc (voltage_id deviceId c) (readings (voltage_key c)) 1
         \<and> doc' (current_id deviceId c) = shown big doc (current_id deviceId c) (readings (current_key c)) 3"
        using here later by cases auto
    qed
    have frame: "\<forall>i. (\<forall>c. ch \<le> c \<and> c < 4 \<longrightarrow> i \<noteq> voltage_id deviceId c \<and> i \<noteq> current_id deviceId c)
           \<longrightarrow> doc' i = doc i"
    proof (intro allI impI)
      fix i
      assume a: "\<forall>c. ch \<le> c \<and> c < 4 \<longrightarrow> i \<noteq> voltage_id deviceId c \<and> i \<noteq> current_id deviceId c"
      then have "doc' i = ?doc2 i"
        using f by auto
      moreover have "i \<noteq> ?v \<and> i \<noteq> ?c"
        using a True by auto
      ultimately show "doc' i = doc i"
        by simp
    qed
    from loop all frame show ?thesis
      by blast
  qed
qed

lemma readings_body_cong:
  "r (voltage_key ch) = r' (voltage_key ch) \<Longrightarrow> r (current_key ch) = r' (current_key ch) \<Longrightarrow>
   readings_body big deviceId r ch doc = readings_body big deviceId r' ch doc"
  by (simp add: readings_body_def)

lemma readings_loop_cong:
  assumes "\<forall>c. ch \<le> c \<and> c < 4 \<longrightarrow>
             r (voltage_key c) = r' (voltage_key c) \<and> r (current_key c) = r' (current_key c)"
  shows "readings_loop big deviceId r ch doc = readings_loop big deviceId r' ch doc"
  using assms
proof (induction big deviceId r ch doc rule: readings_loop.induct)
  case (1 big deviceId r ch doc)
  show ?case
  proof (cases "ch < 4")
    case False
    then show ?thesis
      by (simp add: readings_loop.simps [of big deviceId r ch doc]
          readings_loop.simps [of big deviceId r' ch doc])
  next
    case True
    have body: "readings_body big deviceId r' ch doc = readings_body big deviceId r ch doc"
      using "1.prems" True by (intro readings_body_cong) auto
    have rest: "\<forall>c. ch + 1 \<le> c \<and> c < 4 \<longrightarrow>
             r (voltage_key c) = r' (voltage_key c) \<and> r (current_key c) = r' (current_key c)"
      using "1.prems" by auto
    show ?thesis
    proof (cases "readings_body big deviceId r ch doc")
      case (Inl err)
      then show ?thesis
        using True body
        by (simp add: readings_loop.simps [of big deviceId r ch doc]
            readings_loop.simps [of big deviceId r' ch doc])
    next
      case (Inr doc2)
      then show ?thesis
        using True body "1.IH" [OF True Inr rest]
        by (simp add: readings_loop.simps [of big deviceId r ch doc]
            readings_loop.simps [of big deviceId r' ch doc])
    qed
  qed
qed

text \<open>
  C5. When every reading that is present for the channels 0 to 3 is a number,
  \<^verbatim>\<open>updateModuleReadings\<close> returns, and for every channel 0 to 3: a voltage
  display that exists shows the voltage reading with one decimal place when the reading
  is present and keeps its content when it is absent; a current display that exists
  shows the current reading with three decimal places, or keeps its content. Every
  element other than the eight displays of the device is left as it was, and the result
  depends on no property of \<^verbatim>\<open>readings\<close> other than the eight of the channels 0
  to 3.
\<close>

theorem updateModuleReadings_displays:
  assumes "\<forall>ch<4. numeric (readings (voltage_key ch)) \<and> numeric (readings (current_key ch))"
  shows "\<exists>doc'. updateModuleReadings big doc deviceId readings = Inr doc'
     \<and> (\<forall>ch<4. \<forall>display.
           (doc (voltage_id deviceId ch) = Some display \<longrightarrow>
              (\<forall>x. readings (voltage_key ch) = Some (JsonNumber x) \<longrightarrow>
                 doc' (voltage_id deviceId ch) = Some (display\<lparr>el_text := toFixed big 1 x\<rparr>))
              \<and> (readings (voltage_key ch) = None \<longrightarrow> doc' (voltage_id deviceId ch) = Some display))
         \<and> (doc (current_id deviceId ch) = Some display \<longrightarrow>
              (\<forall>x. readings (current_key ch) = Some (JsonNumber x) \<longrightarrow>
                 doc' (current_id deviceId ch) = Some (display\<lparr>el_text := toFixed big 3 x\<rparr>))
              \<and> (readings (current_key ch) = None \<longrightarrow> doc' (current_id deviceId ch) = Some display)))
     \<and> (\<forall>i. (\<forall>ch<4. i \<noteq> voltage_id deviceId ch \<and> i \<noteq> current_id deviceId ch) \<longrightarrow> doc' i = doc i)
     \<and> (\<forall>readings'.
           (\<forall>ch<4. readings' (voltage_key ch) = readings (voltage_key ch)
                  \<and> readings' (current_key ch) = readings (current_key ch)) \<longrightarrow>
           updateModuleReadings big doc deviceId readings' = Inr doc')"
proof -
  have "\<forall>c. 0 \<le> c \<and> c < 4 \<longrightarrow>
          numeric (readings (voltage_key c)) \<and> numeric (readings (current_key c))"
    using assms by simp
  from readings_loop_numeric [OF this, of big deviceId doc] obtain doc' where
    r: "readings_loop big deviceId readings 0 doc = Inr doc'"
    and s: "\<forall>c. 0 \<le> c \<and> c < 4 \<longrightarrow>
           doc' (voltage_id deviceId c) = shown big doc (voltage_id deviceId c) (readings (voltage_key c)) 1
         \<and> doc' (current_id deviceId c) = shown big doc (current_id deviceId c) (readings (current_key c)) 3"
    and f: "\<forall>i. (\<forall>c. 0 \<le> c \<and> c < 4 \<longrightarrow> i \<noteq> voltage_id deviceId c \<and> i \<noteq> current_id deviceId c)
           \<longrightarrow> doc' i = doc i"
    by blast
  have ret: "updateModuleReadings big doc deviceId readings = Inr doc'"
    using r by (simp add: updateModuleReadings_def)
  have disp: "\<forall>ch<4. \<forall>display.
           (doc (voltage_id deviceId ch) = Some display \<longrightarrow>
              (\<forall>x. readings (voltage_key ch) = Some (JsonNumber x) \<longrightarrow>
                 doc' (voltage_id deviceId ch) = Some (display\<lparr>el_text := toFixed big 1 x\<rparr>))
              \<and> (readings (voltage_key ch) = None \<longrightarrow> doc' (voltage_id deviceId ch) = Some display))
         \<and> (doc (current_id deviceId ch) = Some display \<longrightarrow>
              (\<forall>x. readings (current_key ch) = Some (JsonNumber x) \<longrightarrow>
                 doc' (current_id deviceId ch) = Some (display\<lparr>el_text := toFixed big 3 x\<rparr>))
              \<and> (readings (current_key ch) = None \<longrightarrow> doc' (current_id deviceId ch) = Some display))"
    using s by (simp add: shown_def)
  have frame: "\<forall>i. (\<forall>ch<4. i \<noteq> voltage_id deviceId ch \<and> i \<noteq> current_id deviceId ch) \<longrightarrow> doc' i = doc i"
    using f by simp
  have only: "\<forall>readings'.
           (\<forall>ch<4. readings' (voltage_key ch) = readings (voltage_key ch)
                  \<and> readings' (current_key ch) = readings (current_key ch)) \<longrightarrow>
           updateModuleReadings big doc deviceId readings' = Inr doc'"
  proof (intro allI impI)
    fix readings'
    assume "\<forall>ch<4. readings' (voltage_key ch) = readings (voltage_key ch)
                  \<and> readings' (current_key ch) = readings (current_key ch)"
    then have "\<forall>c. 0 \<le> c \<and> c < 4 \<longrightarrow>
             readings' (voltage_key c) = readings (voltage_key c)
             \<and> readings' (current_key c) = readings (current_key c)"
      by simp
    from readings_loop_cong [OF this, of big deviceId doc]
    show "updateModuleReadings big doc deviceId readings' = Inr doc'"
      using r by (simp add: updateModuleReadings_def)
  qed
  from ret disp frame only show ?thesis
    by blast
qed

theorem updateModuleReadings_displays_witness:
  "(case updateModuleReadings (\<lambda>x. ''1e+21'')
      [''voltage-COM4-0'' \<mapsto> \<lparr>el_value = '''', el_checked = False, el_text = ''000.0''\<rparr>,
       ''current-COM4-0'' \<mapsto> \<lparr>el_value = '''', el_checked = False, el_text = ''0.000''\<rparr>,
       ''voltage-COM4-1'' \<mapsto> \<lparr>el_value = '''', el_checked = False, el_text = ''000.0''\<rparr>]
      ''COM4''
      [''voltage_0'' \<mapsto> JsonNumber (1001 / 4), ''current_0'' \<mapsto> JsonNumber (1 / 8)] of
      Inl err \<Rightarrow> False
    | Inr doc' \<Rightarrow>
        doc' ''voltage-COM4-0'' = Some \<lparr>el_value = '''', el_checked = False, el_text = ''250.3''\<rparr>
        \<and> doc' ''current-COM4-0'' = Some \<lparr>el_value = '''', el_checked = False, el_text = ''0.125''\<rparr>
        \<and> doc' ''voltage-COM4-1'' = Some \<lparr>el_value = '''', el_checked = False, el_text = ''000.0''\<rparr>)"
proof -
  let ?big = "\<lambda>x::rat. ''1e+21''"
  let ?v = "\<lparr>el_value = '''', el_checked = False, el_text = ''000.0''\<rparr>"
  let ?c = "\<lparr>el_value = '''', el_checked = False, el_text = ''0.000''\<rparr>"
  let ?doc = "[''voltage-COM4-0'' \<mapsto> ?v, ''current-COM4-0'' \<mapsto> ?c, ''voltage-COM4-1'' \<mapsto> ?v]"
  let ?r = "[''voltage_0'' \<mapsto> JsonNumber (1001 / 4), ''current_0'' \<mapsto> JsonNumber (1 / 8)]"
  have num: "\<forall>ch<4. numeric (?r (voltage_key ch)) \<and> numeric (?r (current_key ch))"
    by (simp add: numeric_def)
  have ids: "voltage_id ''COM4'' 0 = ''voltage-COM4-0''" "current_id ''COM4'' 0 = ''current-COM4-0''"
    "voltage_id ''COM4'' 1 = ''voltage-COM4-1''" "voltage_id ''COM4'' (Suc 0) = ''voltage-COM4-1''"
    by code_simp+
  have keys: "voltage_key 0 = ''voltage_0''" "current_key 0 = ''current_0''"
    "voltage_key 1 = ''voltage_1''" "voltage_key (Suc 0) = ''voltage_1''"
    by code_simp+
  have digits: "nat_digits 2503 = ''2503''" "nat_digits 125 = ''125''"
    by code_simp+
  have fl: "\<lfloor>(251::rat) / 2\<rfloor> = 125"
    by (simp add: floor_eq_iff)
  have fx: "toFixed ?big 1 (1001 / 4) = ''250.3''" "toFixed ?big 3 (1 / 8) = ''0.125''"
    unfolding toFixed_def Let_def by (simp_all add: digits fl)
  from updateModuleReadings_displays [of ?r ?big ?doc "''COM4''", OF num] obtain doc' where
    r: "updateModuleReadings ?big ?doc ''COM4'' ?r = Inr doc'"
    and d: "\<forall>ch<4. \<forall>display.
           (?doc (voltage_id ''COM4'' ch) = Some display \<longrightarrow>
              (\<forall>x. ?r (voltage_key ch) = Some (JsonNumber x) \<longrightarrow>
                 doc' (voltage_id ''COM4'' ch) = Some (display\<lparr>el_text := toFixed ?big 1 x\<rparr>))
              \<and> (?r (voltage_key ch) = None \<longrightarrow> doc' (voltage_id ''COM4'' ch) = Some display))
         \<and> (?doc (current_id ''COM4'' ch) = Some display \<longrightarrow>
              (\<forall>x. ?r (current_key ch) = Some (JsonNumber x) \<longrightarrow>
                 doc' (current_id ''COM4'' ch) = Some (display\<lparr>el_text := toFixed ?big 3 x\<rparr>))
              \<and> (?r (current_key ch) = None \<longrightarrow> doc' (current_id ''COM4'' ch) = Some display))"
    by blast
  have d0: "(0::nat) < 4" and d1: "(1::nat) < 4"
    by simp_all
  have a0: "?doc (voltage_id ''COM4'' 0) = Some ?v"
    and b0: "?r (voltage_key 0) = Some (JsonNumber (1001 / 4))"
    and a1: "?doc (current_id ''COM4'' 0) = Some ?c"
    and b1: "?r (current_key 0) = Some (JsonNumber (1 / 8))"
    and a2: "?doc (voltage_id ''COM4'' 1) = Some ?v"
    and b2: "?r (voltage_key 1) = None"
    by (simp_all add: ids keys)
  from d d0 a0 b0
  have "doc' (voltage_id ''COM4'' 0) = Some (?v\<lparr>el_text := toFixed ?big 1 (1001 / 4)\<rparr>)"
    by blast
  then have v0: "doc' ''voltage-COM4-0'' = Some (?v\<lparr>el_text := ''250.3''\<rparr>)"
    by (simp only: ids fx)
  from d d0 a1 b1
  have "doc' (current_id ''COM4'' 0) = Some (?c\<lparr>el_text := toFixed ?big 3 (1 / 8)\<rparr>)"
    by blast
  then have c0: "doc' ''current-COM4-0'' = Some (?c\<lparr>el_text := ''0.125''\<rparr>)"
    by (simp only: ids fx)
  from d d1 a2 b2
  have "doc' (voltage_id ''COM4'' 1) = Some ?v"
    by blast
  then have v1: "doc' ''voltage-COM4-1'' = Some ?v"
    by (simp only: ids)
  from v0 c0 v1 show ?thesis
    by (simp add: r)
qed

text \<open>
  A reading that is present but not a number stops the loop: with \<^verbatim>\<open>voltage_0\<close>
  null and \<^verbatim>\<open>voltage_1\<close> 5, the test \<^verbatim>\<open>voltage !== undefined\<close> lets null
  through, \<^verbatim>\<open>voltage.toFixed(1)\<close> throws on channel 0, and the voltage display of
  channel 1, whose reading is contained in the object, is not set to \<^verbatim>\<open>5.0\<close>: both
  displays hold what they held.
\<close>

theorem updateModuleReadings_null_counterexample:
  "updateModuleReadings (\<lambda>x. ''1e+21'')
      [''voltage-COM4-0'' \<mapsto> \<lparr>el_value = '''', el_checked = False, el_text = ''000.0''\<rparr>,
       ''voltage-COM4-1'' \<mapsto> \<lparr>el_value = '''', el_checked = False, el_text = ''000.0''\<rparr>]
      ''COM4''
      [''voltage_0'' \<mapsto> JsonNull, ''voltage_1'' \<mapsto> JsonNumber 5]
   = Inl (TypeError,
      [''voltage-COM4-0'' \<mapsto> \<lparr>el_value = '''', el_checked = False, el_text = ''000.0''\<rparr>,
       ''voltage-COM4-1'' \<mapsto> \<lparr>el_value = '''', el_checked = False, el_text = ''000.0''\<rparr>])
   \<and> toFixed (\<lambda>x. ''1e+21'') 1 5 = ''5.0''"
proof -
  have ids: "voltage_id ''COM4'' 0 = ''voltage-COM4-0''"
    by code_simp
  have keys: "voltage_key 0 = ''voltage_0''"
    by code_simp
  have digits: "nat_digits 50 = ''50''"
    by code_simp
  have fl: "\<lfloor>(101::rat) / 2\<rfloor> = 50"
    by (simp add: floor_eq_iff)
  have fx: "toFixed (\<lambda>x. ''1e+21'') 1 5 = ''5.0''"
    unfolding toFixed_def Let_def by (simp add: digits fl)
  have "updateModuleReadings (\<lambda>x. ''1e+21'')
      [''voltage-COM4-0'' \<mapsto> \<lparr>el_value = '''', el_checked = False, el_text = ''000.0''\<rparr>,
       ''voltage-COM4-1'' \<mapsto> \<lparr>el_value = '''', el_checked = False, el_text = ''000.0''\<rparr>]
      ''COM4''
      [''voltage_0'' \<mapsto> JsonNull, ''voltage_1'' \<mapsto> JsonNumber 5]
   = Inl (TypeError,
      [''voltage-COM4-0'' \<mapsto> \<lparr>el_value = '''', el_checked = False, el_text = ''000.0''\<rparr>,
       ''voltage-COM4-1'' \<mapsto> \<lparr>el_value = '''', el_checked = False, el_text = ''000.0''\<rparr>])"
    unfolding updateModuleReadings_def
    by (subst readings_loop.simps) (simp add: readings_body_def show_reading_def ids keys)
  with fx show ?thesis
    by (intro conjI)
qed

text \<open>
  Below \<open>10 ^ 21\<close> the text that \<^verbatim>\<open>toFixed\<close> produces has a non-empty integer part,
  a point, and exactly as many places after it as were asked for. A reading that is
  present but not a number makes the update of an existing display throw.
\<close>

lemma toFixed_places:
  assumes "f \<noteq> 0" and "\<bar>x\<bar> < 10 ^ 21"
  shows "\<exists>ip fp. toFixed big f x = (if x < 0 then ''-'' else '''') @ ip @ ''.'' @ fp
           \<and> ip \<noteq> [] \<and> length fp = f"
proof -
  define m where "m = nat_digits (nat \<lfloor>\<bar>x\<bar> * 10 ^ f + 1 / 2\<rfloor>)"
  define m1 where "m1 = (if length m \<le> f then replicate (f + 1 - length m) CHR ''0'' @ m else m)"
  have len: "f < length m1"
    by (auto simp: m1_def)
  have eq: "toFixed big f x
      = (if x < 0 then ''-'' else '''') @ take (length m1 - f) m1 @ ''.'' @ drop (length m1 - f) m1"
    using assms unfolding toFixed_def Let_def m_def [symmetric] m1_def [symmetric]
    by simp
  have "take (length m1 - f) m1 \<noteq> []"
    using len by auto
  moreover have "length (drop (length m1 - f) m1) = f"
    using len by simp
  ultimately show ?thesis
    using eq by blast
qed

lemma show_reading_not_number:
  "doc i = Some display \<Longrightarrow> \<not> numeric (Some v) \<Longrightarrow>
   show_reading big doc (Some v) i f = Inl (TypeError, doc)"
  by (cases v) (simp_all add: show_reading_def numeric_def)

subsection \<open>Module management\<close>

lemma set_object_keys: "set (object_keys ps) = fst ` set ps"
  by (auto simp: object_keys_def Let_def)

lemma object_keys_Nil: "object_keys ps = [] \<longleftrightarrow> ps = []"
  using set_object_keys [of ps] by (cases ps) (auto simp: object_keys_def)

lemma set_object_keys_delete: "set (object_keys (AList.delete k ps)) = fst ` set ps - {k}"
  by (auto simp: set_object_keys AList.delete_eq)

lemma module_ids_map_of: "k \<in> module_ids st \<longleftrightarrow> map_of (modules st) k \<noteq> None"
  by (simp add: module_ids_def map_of_eq_None_iff)

lemma switchModule_modules: "modules (switchModule st k) = modules st"
  by (simp add: switchModule_def Let_def)

lemma switchModule_current: "currentModuleId (switchModule st k) = Some k"
  by (simp add: switchModule_def Let_def)

lemma activate_first_nodes: "map tc_node (activate_first i ts) = map tc_node ts"
  by (induction ts) auto

lemma switchModule_button_nodes: "map tb_node (tab_buttons (switchModule st k)) = map tb_node (tab_buttons st)"
  by (auto simp: switchModule_def Let_def comp_def split: option.splits)

lemma switchModule_content_nodes: "map tc_node (tab_contents (switchModule st k)) = map tc_node (tab_contents st)"
  by (auto simp: switchModule_def Let_def comp_def activate_first_nodes)

lemma addModule_present: "k \<in> module_ids st \<Longrightarrow> addModule kind st k port = st"
  by (simp add: addModule_def truthy_at_def module_ids_map_of)

lemma addModule_modules:
  "modules (addModule kind st k port) =
     (if truthy_at (modules st) k then modules st
      else AList.update k \<lparr>m_deviceId = k, m_port = port, m_tabButton = next_node st,
                            m_tabContent = next_node st + 1\<rparr> (modules st))"
  by (simp add: addModule_def Let_def switchModule_modules)

lemma removeModule_modules:
  "modules (removeModule st k) = AList.delete k (modules st)"
proof (cases "truthy_at (modules st) k")
  case True
  then show ?thesis
    by (auto simp: removeModule_def Let_def switchModule_modules split: option.splits list.splits)
next
  case False
  then have "k \<notin> fst ` set (modules st)"
    by (simp add: truthy_at_def map_of_eq_None_iff)
  then have "AList.delete k (modules st) = modules st"
    by (simp add: AList.delete_eq filter_id_conv) (auto simp: rev_image_eqI)
  with False show ?thesis
    by (simp add: removeModule_def)
qed

lemma removeModule_not_truthy: "\<not> truthy_at (modules st) k \<Longrightarrow> removeModule st k = st"
  by (simp add: removeModule_def)

lemma run_call_distinct:
  "distinct (map fst (modules st)) \<Longrightarrow> distinct (map fst (modules (run_call kind st c)))"
  by (cases c) (simp_all add: addModule_modules removeModule_modules AList.distinct_update
      AList.distinct_delete)

lemma run_calls_distinct:
  "distinct (map fst (modules st)) \<Longrightarrow> distinct (map fst (modules (run_calls kind st cs)))"
  unfolding run_calls_def
  by (induction cs arbitrary: st) (simp_all add: run_call_distinct)

lemma addModule_current_ok: "current_ok st \<Longrightarrow> current_ok (addModule kind st k port)"
proof (cases "truthy_at (modules st) k")
  case True
  then show "current_ok st \<Longrightarrow> current_ok (addModule kind st k port)"
    by (simp add: addModule_def)
next
  case False
  have "currentModuleId (addModule kind st k port) = Some k"
    using False by (simp add: addModule_def Let_def switchModule_current)
  moreover have "k \<in> fst ` set (modules (addModule kind st k port))"
    using False by (simp add: addModule_modules AList.dom_update)
  ultimately show "current_ok (addModule kind st k port)"
    by (auto simp: current_ok_def module_ids_def)
qed

lemma removeModule_current_ok: "current_ok st \<Longrightarrow> current_ok (removeModule st k)"
proof (cases "truthy_at (modules st) k")
  case False
  then show "current_ok st \<Longrightarrow> current_ok (removeModule st k)"
    by (simp add: removeModule_def)
next
  case True
  show "current_ok (removeModule st k)"
  proof (cases "object_keys (AList.delete k (modules st))")
    case Nil
    then have "AList.delete k (modules st) = []"
      by (simp add: object_keys_Nil)
    moreover have "currentModuleId (removeModule st k) = None"
      using True Nil by (auto simp: removeModule_def Let_def split: option.splits)
    ultimately show ?thesis
      by (simp add: current_ok_def removeModule_modules)
  next
    case (Cons j js)
    then have "j \<in> set (object_keys (AList.delete k (modules st)))"
      by simp
    then have j: "j \<in> fst ` set (AList.delete k (modules st))"
      by (simp add: set_object_keys)
    have "currentModuleId (removeModule st k) = Some j"
      using True Cons by (auto simp: removeModule_def Let_def switchModule_current split: option.splits)
    with j show ?thesis
      by (auto simp: current_ok_def module_ids_def removeModule_modules)
  qed
qed

lemma run_calls_current_ok: "current_ok st \<Longrightarrow> current_ok (run_calls kind st cs)"
  unfolding run_calls_def
proof (induction cs arbitrary: st)
  case Nil
  then show ?case by simp
next
  case (Cons c cs)
  have "current_ok (run_call kind st c)"
    using Cons.prems by (cases c) (simp_all add: addModule_current_ok removeModule_current_ok)
  then show ?case
    using Cons.IH by simp
qed

lemma init_client_ok: "current_ok init_client" "distinct (map fst (modules init_client))"
  by (simp_all add: current_ok_def init_client_def)

lemma removeModule_button_nodes:
  assumes "map_of (modules st) k = Some m"
  shows "map tb_node (tab_buttons (removeModule st k))
         = filter (\<lambda>n. n \<noteq> m_tabButton m) (map tb_node (tab_buttons st))"
    and "map tc_node (tab_contents (removeModule st k))
         = filter (\<lambda>n. n \<noteq> m_tabContent m) (map tc_node (tab_contents st))"
  using assms
  by (auto simp: removeModule_def truthy_at_def Let_def switchModule_button_nodes
      switchModule_content_nodes filter_map comp_def split: list.splits)

text \<open>States reached by connecting one and two devices, written out.\<close>

lemma array_index_COM: "array_index ''COM3'' = None" "array_index ''COM4'' = None"
  by code_simp+

lemma not_inherited_COM:
  "''COM3'' \<notin> set object_prototype_names" "''COM4'' \<notin> set object_prototype_names"
  by (simp_all add: object_prototype_names_def)

lemma one_module_state:
  "run_calls kind init_client [AddModule ''COM3'' ''COM3''] =
     \<lparr>modules = [(''COM3'', \<lparr>m_deviceId = ''COM3'', m_port = ''COM3'', m_tabButton = 0, m_tabContent = 1\<rparr>)],
      currentModuleId = Some ''COM3'', tab_header = True, container_active = False,
      tab_buttons = [\<lparr>tb_node = 0, tb_text = tab_label kind 1, tb_target = ''COM3'', tb_active = True\<rparr>],
      tab_contents = [\<lparr>tc_node = 1, tc_id = ''module-COM3'', tc_panel = ''COM3'', tc_active = True\<rparr>],
      next_node = 2\<rparr>"
  by (simp add: run_calls_def init_client_def addModule_def truthy_at_def not_inherited_COM
      switchModule_def object_keys_def Let_def)

lemma two_module_state:
  "run_calls kind init_client [AddModule ''COM3'' ''COM3'', AddModule ''COM4'' ''COM4''] =
     \<lparr>modules = [(''COM3'', \<lparr>m_deviceId = ''COM3'', m_port = ''COM3'', m_tabButton = 0, m_tabContent = 1\<rparr>),
                 (''COM4'', \<lparr>m_deviceId = ''COM4'', m_port = ''COM4'', m_tabButton = 2, m_tabContent = 3\<rparr>)],
      currentModuleId = Some ''COM4'', tab_header = True, container_active = False,
      tab_buttons = [\<lparr>tb_node = 0, tb_text = tab_label kind 1, tb_target = ''COM3'', tb_active = False\<rparr>,
                     \<lparr>tb_node = 2, tb_text = tab_label kind 2, tb_target = ''COM4'', tb_active = True\<rparr>],
      tab_contents = [\<lparr>tc_node = 1, tc_id = ''module-COM3'', tc_panel = ''COM3'', tc_active = False\<rparr>,
                      \<lparr>tc_node = 3, tc_id = ''module-COM4'', tc_panel = ''COM4'', tc_active = True\<rparr>],
      next_node = 4\<rparr>"
  by (simp add: run_calls_def init_client_def addModule_def truthy_at_def not_inherited_COM
      switchModule_def object_keys_def array_index_COM Let_def numeral_2_eq_2)

text \<open>
  C2. For a device id that is a key of the modules map, the \<^verbatim>\<open>device_disconnected\<close>
  event removes the module: its entry leaves the map (the other entries stay), and its
  tab button and tab content leave the page. Afterwards \<^verbatim>\<open>currentModuleId\<close> is the
  id of a remaining module when there is one, and null when there is none.
\<close>

theorem device_disconnected_removes:
  assumes "map_of (modules st) deviceId = Some m"
  shows "modules (on_device_disconnected st deviceId) = AList.delete deviceId (modules st)
     \<and> module_ids (on_device_disconnected st deviceId) = module_ids st - {deviceId}
     \<and> m_tabButton m \<notin> tb_node ` set (tab_buttons (on_device_disconnected st deviceId))
     \<and> m_tabContent m \<notin> tc_node ` set (tab_contents (on_device_disconnected st deviceId))
     \<and> (module_ids (on_device_disconnected st deviceId) \<noteq> {} \<longrightarrow>
          (\<exists>k \<in> module_ids (on_device_disconnected st deviceId).
             currentModuleId (on_device_disconnected st deviceId) = Some k))
     \<and> (module_ids (on_device_disconnected st deviceId) = {} \<longrightarrow>
          currentModuleId (on_device_disconnected st deviceId) = None)"
proof -
  let ?st' = "removeModule st deviceId"
  have mods: "modules ?st' = AList.delete deviceId (modules st)"
    by (rule removeModule_modules)
  have ids: "module_ids ?st' = module_ids st - {deviceId}"
    by (auto simp: module_ids_def mods AList.delete_eq)
  have "set (map tb_node (tab_buttons ?st')) = set (map tb_node (tab_buttons st)) - {m_tabButton m}"
    unfolding removeModule_button_nodes(1) [OF assms] by auto
  then have btn: "m_tabButton m \<notin> tb_node ` set (tab_buttons ?st')"
    by auto
  have "set (map tc_node (tab_contents ?st')) = set (map tc_node (tab_contents st)) - {m_tabContent m}"
    unfolding removeModule_button_nodes(2) [OF assms] by auto
  then have cnt: "m_tabContent m \<notin> tc_node ` set (tab_contents ?st')"
    by auto
  have t: "truthy_at (modules st) deviceId"
    using assms by (simp add: truthy_at_def)
  have cur: "(module_ids ?st' \<noteq> {} \<longrightarrow> (\<exists>k \<in> module_ids ?st'. currentModuleId ?st' = Some k))
       \<and> (module_ids ?st' = {} \<longrightarrow> currentModuleId ?st' = None)"
  proof (cases "object_keys (AList.delete deviceId (modules st))")
    case Nil
    then have "AList.delete deviceId (modules st) = []"
      by (simp add: object_keys_Nil)
    then have "module_ids ?st' = {}"
      by (simp add: module_ids_def mods)
    moreover have "currentModuleId ?st' = None"
      using t Nil by (auto simp: removeModule_def Let_def split: option.splits)
    ultimately show ?thesis by simp
  next
    case (Cons j js)
    then have "j \<in> set (object_keys (AList.delete deviceId (modules st)))"
      by simp
    then have "j \<in> module_ids ?st'"
      by (simp add: set_object_keys module_ids_def mods)
    moreover have "currentModuleId ?st' = Some j"
      using t Cons by (auto simp: removeModule_def Let_def switchModule_current split: option.splits)
    ultimately show ?thesis by auto
  qed
  from mods ids btn cnt cur show ?thesis
    unfolding on_device_disconnected_def by (intro conjI) blast+
qed

theorem device_disconnected_removes_witness:
  "module_ids (on_device_disconnected
      (run_calls HighVoltage init_client [AddModule ''COM3'' ''COM3'', AddModule ''COM4'' ''COM4''])
      ''COM4'') = {''COM3''}
   \<and> currentModuleId (on_device_disconnected
      (run_calls HighVoltage init_client [AddModule ''COM3'' ''COM3'', AddModule ''COM4'' ''COM4''])
      ''COM4'') = Some ''COM3''
   \<and> map tb_node (tab_buttons (on_device_disconnected
      (run_calls HighVoltage init_client [AddModule ''COM3'' ''COM3'', AddModule ''COM4'' ''COM4''])
      ''COM4'')) = [0]"
proof -
  let ?st = "run_calls HighVoltage init_client [AddModule ''COM3'' ''COM3'', AddModule ''COM4'' ''COM4'']"
  let ?m = "\<lparr>m_deviceId = ''COM4'', m_port = ''COM4'', m_tabButton = 2, m_tabContent = 3\<rparr>"
  have h: "map_of (modules ?st) ''COM4'' = Some ?m"
    by (simp add: two_module_state)
  have ids0: "module_ids ?st = {''COM3'', ''COM4''}"
    by (simp add: two_module_state module_ids_def)
  note d = device_disconnected_removes [OF h]
  from d have ids: "module_ids (on_device_disconnected ?st ''COM4'') = {''COM3''}"
    unfolding ids0 by auto
  from d have "\<exists>k \<in> module_ids (on_device_disconnected ?st ''COM4'').
      currentModuleId (on_device_disconnected ?st ''COM4'') = Some k"
    unfolding ids by blast
  then have cur: "currentModuleId (on_device_disconnected ?st ''COM4'') = Some ''COM3''"
    unfolding ids by simp
  have btn: "map tb_node (tab_buttons (on_device_disconnected ?st ''COM4'')) = [0]"
    unfolding on_device_disconnected_def removeModule_button_nodes(1) [OF h]
    by (simp add: two_module_state)
  from ids cur btn show ?thesis
    by (intro conjI)
qed

lemma distinct_keys_at_most_one:
  "distinct (map fst ps) \<Longrightarrow> length (filter (\<lambda>p. fst p = k) ps) \<le> 1"
proof (induction ps)
  case Nil
  then show ?case by simp
next
  case (Cons p ps)
  show ?case
  proof (cases "fst p = k")
    case True
    then have "filter (\<lambda>q. fst q = k) ps = []"
      using Cons.prems by (force simp: filter_empty_conv image_iff)
    with True show ?thesis by simp
  next
    case False
    then show ?thesis using Cons by simp
  qed
qed

text \<open>
  C9. \<^verbatim>\<open>addModule\<close> with an identifier that is a key of the modules map returns the
  state as it is: no tab is created, the entry is not modified and
  \<^verbatim>\<open>currentModuleId\<close> is not changed. The keys of the map stay distinct under
  \<^verbatim>\<open>addModule\<close>, and after any sequence of \<^verbatim>\<open>addModule\<close> and
  \<^verbatim>\<open>removeModule\<close> calls on the initial state every identifier has at most one
  entry.
\<close>

theorem addModule_already_present:
  "(deviceId \<in> module_ids st \<longrightarrow> addModule kind st deviceId port = st)
   \<and> (distinct (map fst (modules st)) \<longrightarrow>
        distinct (map fst (modules (addModule kind st deviceId port))))
   \<and> (\<forall>k. length (filter (\<lambda>p. fst p = k) (modules (run_calls kind init_client cs))) \<le> 1)"
proof -
  have a: "deviceId \<in> module_ids st \<longrightarrow> addModule kind st deviceId port = st"
    by (simp add: addModule_present)
  have b: "distinct (map fst (modules st)) \<longrightarrow>
        distinct (map fst (modules (addModule kind st deviceId port)))"
    using run_call_distinct [of st kind "AddModule deviceId port"] by simp
  have dist: "distinct (map fst (modules (run_calls kind init_client cs)))"
    by (simp add: run_calls_distinct init_client_ok)
  have c: "\<forall>k. length (filter (\<lambda>p. fst p = k) (modules (run_calls kind init_client cs))) \<le> 1"
    using distinct_keys_at_most_one [OF dist] by simp
  from a b c show ?thesis
    by (intro conjI)
qed

theorem addModule_already_present_witness:
  "''COM3'' \<in> module_ids (run_calls PulseShaping init_client [AddModule ''COM3'' ''COM3''])
   \<and> addModule PulseShaping (run_calls PulseShaping init_client [AddModule ''COM3'' ''COM3''])
        ''COM3'' ''COM9''
     = run_calls PulseShaping init_client [AddModule ''COM3'' ''COM3'']
   \<and> distinct (map fst (modules
        (addModule PulseShaping (run_calls PulseShaping init_client [AddModule ''COM3'' ''COM3''])
           ''COM4'' ''COM4'')))"
proof -
  let ?st = "run_calls PulseShaping init_client [AddModule ''COM3'' ''COM3'']"
  have m: "''COM3'' \<in> module_ids ?st"
    by (simp add: one_module_state module_ids_def)
  have d: "distinct (map fst (modules ?st))"
    by (simp add: one_module_state)
  from addModule_already_present [of "''COM3''" ?st PulseShaping "''COM9''"] m
  have same: "addModule PulseShaping ?st ''COM3'' ''COM9'' = ?st"
    by blast
  from addModule_already_present [of "''COM4''" ?st PulseShaping "''COM4''"] d
  have "distinct (map fst (modules (addModule PulseShaping ?st ''COM4'' ''COM4'')))"
    by blast
  with m same show ?thesis
    by (intro conjI)
qed

text \<open>
  \<^verbatim>\<open>removeModule\<close> with an identifier that is neither a key of the map nor the
  name of a member of \<^verbatim>\<open>Object.prototype\<close> changes nothing, and the invariant on
  \<^verbatim>\<open>currentModuleId\<close> holds after every sequence of calls on the initial state.
\<close>

lemma removeModule_absent:
  "k \<notin> module_ids st \<Longrightarrow> k \<notin> set object_prototype_names \<Longrightarrow> removeModule st k = st"
  by (simp add: removeModule_not_truthy truthy_at_def module_ids_map_of)

lemma current_ok_reachable: "current_ok (run_calls kind init_client cs)"
  by (simp add: run_calls_current_ok init_client_ok)

text \<open>
  C10. With the modules \<^verbatim>\<open>COM3\<close> and \<^verbatim>\<open>COM4\<close> connected and \<^verbatim>\<open>COM4\<close>
  current, \<^verbatim>\<open>removeModule('constructor')\<close> is a call with an identifier that is not
  a key of the map; the test \<^verbatim>\<open>modules['constructor']\<close> finds the inherited
  \<^verbatim>\<open>Object.prototype.constructor\<close>, the body runs, and \<^verbatim>\<open>currentModuleId\<close>
  changes to \<^verbatim>\<open>COM3\<close>. No entry is deleted.
\<close>

theorem removeModule_inherited_name:
  "''constructor'' \<notin> module_ids
      (run_calls HighVoltage init_client [AddModule ''COM3'' ''COM3'', AddModule ''COM4'' ''COM4''])
   \<and> currentModuleId
      (run_calls HighVoltage init_client [AddModule ''COM3'' ''COM3'', AddModule ''COM4'' ''COM4''])
     = Some ''COM4''
   \<and> currentModuleId (removeModule
      (run_calls HighVoltage init_client [AddModule ''COM3'' ''COM3'', AddModule ''COM4'' ''COM4''])
      ''constructor'') = Some ''COM3''
   \<and> map fst (modules (removeModule
      (run_calls HighVoltage init_client [AddModule ''COM3'' ''COM3'', AddModule ''COM4'' ''COM4''])
      ''constructor'')) = [''COM3'', ''COM4'']"
proof -
  let ?st = "run_calls HighVoltage init_client [AddModule ''COM3'' ''COM3'', AddModule ''COM4'' ''COM4'']"
  have a: "''constructor'' \<notin> module_ids ?st"
    by (simp add: two_module_state module_ids_def)
  have b: "currentModuleId ?st = Some ''COM4''"
    by (simp add: two_module_state)
  have t: "truthy_at (modules ?st) ''constructor''"
    by (simp add: truthy_at_def object_prototype_names_def)
  have del: "AList.delete ''constructor'' (modules ?st) = modules ?st"
    by (simp add: two_module_state AList.delete_eq)
  have keys: "object_keys (modules ?st) = [''COM3'', ''COM4'']"
    by (simp add: two_module_state object_keys_def array_index_COM)
  have none: "map_of (modules ?st) ''constructor'' = None"
    by (simp add: two_module_state)
  have r: "removeModule ?st ''constructor'' = switchModule ?st ''COM3''"
    unfolding removeModule_def Let_def using t none by (simp add: del keys)
  have c: "currentModuleId (removeModule ?st ''constructor'') = Some ''COM3''"
    by (simp add: r switchModule_current)
  have d: "map fst (modules (removeModule ?st ''constructor'')) = [''COM3'', ''COM4'']"
    unfolding r switchModule_modules by (simp add: two_module_state)
  from a b c d show ?thesis
    by (intro conjI)
qed

end
